theory Spec2Isabelle
  imports Complex_Main
begin

section \<open>FindPeople scraper: a model of find.py\<close>

text \<open>
  The program posts a name query to a university directory form, reads the result page
  as an HTML tree, pulls a contact record out of every result row and prints it.
  The HTTP client and the HTML parser are libraries; they appear here as the functions
  of a record of collaborators, and a theorem holds for every choice of them, but for
  what it assumes of them.
  Exceptions are values: a function that can raise returns \<open>error + 'a\<close>, with
  \<open>Inl\<close> for the exception.
\<close>

subsection \<open>Python strings\<close>

text \<open>
  A Python string is a \<open>string\<close> (a list of characters with codes below 256).
  \<open>isspace\<close> lists the characters of that range that \<^verbatim>\<open>str.isspace\<close> accepts;
  \<open>strip\<close> and \<open>str_split\<close> are \<^verbatim>\<open>str.strip()\<close> and \<^verbatim>\<open>str.split()\<close> without
  arguments; \<open>str_partition\<close> is \<^verbatim>\<open>str.partition(sep)\<close> and \<open>split_sep\<close> is
  \<^verbatim>\<open>str.split(sep)\<close>, both for a separator of one character; \<open>str_int\<close> is the
  decimal text of an integer, as \<^verbatim>\<open>format\<close> writes it.
\<close>

abbreviation NL :: char where
  "NL \<equiv> CHR 0x0A"

abbreviation TAB :: char where
  "TAB \<equiv> CHR 0x09"

definition isspace :: "char \<Rightarrow> bool" where
  "isspace c = (c \<in> {CHR 0x09, CHR 0x0A, CHR 0x0B, CHR 0x0C, CHR 0x0D,
                      CHR 0x1C, CHR 0x1D, CHR 0x1E, CHR 0x1F, CHR 0x20,
                      CHR 0x85, CHR 0xA0})"

definition strip :: "string \<Rightarrow> string" where
  "strip s = rev (dropWhile isspace (rev (dropWhile isspace s)))"

text \<open>
  \<open>split_go cur s\<close> scans \<open>s\<close> from the left with the token read so far in \<open>cur\<close>:
  a whitespace character closes a non-empty token, any other character extends it.
\<close>

fun split_go :: "string \<Rightarrow> string \<Rightarrow> string list" where
  "split_go cur [] = (if cur = [] then [] else [cur])"
| "split_go cur (c # cs) =
     (if isspace c then (if cur = [] then split_go [] cs else cur # split_go [] cs)
      else split_go (cur @ [c]) cs)"

definition str_split :: "string \<Rightarrow> string list" where
  "str_split s = split_go [] s"

fun str_partition :: "char \<Rightarrow> string \<Rightarrow> string \<times> string \<times> string" where
  "str_partition sep [] = ([], [], [])"
| "str_partition sep (c # cs) =
     (if c = sep then ([], [sep], cs)
      else (case str_partition sep cs of (before, mid, rest) \<Rightarrow> (c # before, mid, rest)))"

fun split_sep :: "char \<Rightarrow> string \<Rightarrow> string list" where
  "split_sep sep [] = [[]]"
| "split_sep sep (c # cs) =
     (if c = sep then [] # split_sep sep cs
      else (case split_sep sep cs of [] \<Rightarrow> [[c]] | p # ps \<Rightarrow> (c # p) # ps))"

fun digits :: "nat \<Rightarrow> string" where
  "digits n = (if n < 10 then [''0123456789'' ! n]
               else digits (n div 10) @ [''0123456789'' ! (n mod 10)])"

declare digits.simps [simp del]

definition str_int :: "int \<Rightarrow> string" where
  "str_int i = (if i < 0 then CHR ''-'' # digits (nat (- i)) else digits (nat i))"

subsection \<open>Exceptions\<close>

text \<open>
  \<open>InvalidRequest\<close> and \<open>RequestFailure\<close> are the program's own exceptions, with their
  messages. \<open>AttributeError\<close>, \<open>TypeError\<close> and \<open>IndexError\<close> are the ones Python
  raises inside the program; \<open>ClientError\<close> is any exception of the HTTP client.
\<close>

datatype error =
    InvalidRequest string
  | RequestFailure string
  | AttributeError
  | TypeError
  | IndexError
  | ClientError string

subsection \<open>The HTML tree\<close>

text \<open>
  A node of the parsed page is a text node or an element with its tag name, the classes
  of its \<^verbatim>\<open>class\<close> attribute and its children in document order. \<open>descendants\<close> lists
  what lies below a node in document order, and \<open>find_all n tag cls\<close> is the library's
  \<^verbatim>\<open>n.find_all(tag, cls)\<close>: the elements below \<open>n\<close> with that tag name and that class.
  \<open>contents\<close> is the attribute \<^verbatim>\<open>.contents\<close>, which a text node does not have.
\<close>

datatype node = Text string | Tag string "string list" "node list"

fun descendants :: "node \<Rightarrow> node list" where
  "descendants (Text s) = []"
| "descendants (Tag t cs ks) = concat (map (\<lambda>k. k # descendants k) ks)"

definition matches :: "string \<Rightarrow> string \<Rightarrow> node \<Rightarrow> bool" where
  "matches tag cls n = (case n of Text s \<Rightarrow> False | Tag t cs ks \<Rightarrow> t = tag \<and> cls \<in> set cs)"

definition find_all :: "node \<Rightarrow> string \<Rightarrow> string \<Rightarrow> node list" where
  "find_all n tag cls = filter (matches tag cls) (descendants n)"

definition contents :: "node \<Rightarrow> error + node list" where
  "contents n = (case n of Text s \<Rightarrow> Inl AttributeError | Tag t cs ks \<Rightarrow> Inr ks)"

subsection \<open>Collaborators and the world\<close>

text \<open>
  \<open>http_post\<close> is \<^verbatim>\<open>requests.post\<close>: from the requests sent so far, the URL and the
  form it gives a response, or the message of the exception the client raises.
  \<open>html_parser\<close> is \<^verbatim>\<open>BeautifulSoup(page, "html.parser")\<close>. \<open>tag_str\<close> is the text
  \<^verbatim>\<open>format\<close> writes for an element and \<open>tuple_repr\<close> the text it writes for a pair
  of strings.

  The world holds what the program has sent and written, and the wall clock. Times are
  real numbers of seconds; the rounding of floating point numbers is not modelled.
  \<open>passes e w\<close> is the time that has gone by in the world \<open>w\<close> when the program next
  reads the clock: the time the network, the parser and the output took, and what a
  sleep ran over. \<open>time_time\<close> is \<^verbatim>\<open>time.time()\<close> and \<open>time_sleep\<close> is
  \<^verbatim>\<open>time.sleep(secs)\<close>, which moves the clock on by \<open>secs\<close>. The field \<open>events\<close> is
  a log, as \<open>posted\<close> is for the forms: it records every sleep and every value that
  the loop of \<open>main\<close> takes as the start of a query.
\<close>

record response =
  status_code :: int
  content :: string

type_synonym form = "(string \<times> string) list"

datatype event = Slept real | Started real

record world =
  posted :: "(string \<times> form) list"
  outfile :: string
  stderr :: string
  clock :: real
  events :: "event list"

record collab =
  http_post :: "(string \<times> form) list \<Rightarrow> string \<Rightarrow> form \<Rightarrow> string + response"
  html_parser :: "string \<Rightarrow> node"
  tag_str :: "node \<Rightarrow> string"
  tuple_repr :: "string \<times> string \<Rightarrow> string"
  passes :: "world \<Rightarrow> real"

definition requests_post :: "collab \<Rightarrow> string \<Rightarrow> form \<Rightarrow> world \<Rightarrow> (string + response) \<times> world" where
  "requests_post e url form_data w =
     (http_post e (posted w) url form_data, w\<lparr>posted := posted w @ [(url, form_data)]\<rparr>)"

definition time_time :: "collab \<Rightarrow> world \<Rightarrow> real \<times> world" where
  "time_time e w = (clock w + passes e w, w\<lparr>clock := clock w + passes e w\<rparr>)"

definition time_sleep :: "real \<Rightarrow> world \<Rightarrow> world" where
  "time_sleep secs w = w\<lparr>clock := clock w + secs, events := events w @ [Slept secs]\<rparr>"

subsection \<open>Query client\<close>

definition ALL' :: string where
  "ALL' = ''all''"

definition STUDENT :: string where
  "STUDENT = ''student''"

definition EMPLOYEE :: string where
  "EMPLOYEE = ''employee''"

definition URL :: string where
  "URL = ''https://www.osu.edu/findpeople/''"

definition do_request ::
  "collab \<Rightarrow> string \<Rightarrow> string \<Rightarrow> string \<Rightarrow> string \<Rightarrow> world \<Rightarrow> (error + string) \<times> world" where
  "do_request e firstname lastname dot_name category w =
     (if category \<notin> {ALL', STUDENT, EMPLOYEE}
      then (Inl (InvalidRequest ''invalid category''), w)
      else
        (let form_data = [(''filter'', category),
                          (''firstname'', firstname),
                          (''lastname'', lastname),
                          (''name_n'', dot_name)]
         in case requests_post e URL form_data w of
              (Inl msg, w') \<Rightarrow> (Inl (ClientError msg), w')
            | (Inr resp, w') \<Rightarrow>
                if status_code resp \<noteq> 200
                then (Inl (RequestFailure (''Bad status code: '' @ str_int (status_code resp))), w')
                else (Inr (content resp), w')))"

subsection \<open>Record extractor\<close>

text \<open>
  Each lookup takes the first matching cell and the first child of what it found.
  \<open>parse_record_name\<close> calls \<^verbatim>\<open>strip()\<close> on that child: for a text node this is the
  string method. An element has no such method; the library then looks for a child tag
  of that name, finds none in a directory page, and the call raises \<open>TypeError\<close>
  (pages with a tag named strip or partition are not covered).
\<close>

definition parse_record_email :: "node \<Rightarrow> error + node option" where
  "parse_record_email row =
     (case find_all row ''td'' ''record-data-email'' of
        [] \<Rightarrow> Inr None
      | email_tag # others \<Rightarrow>
          (case contents email_tag of
             Inl ex \<Rightarrow> Inl ex
           | Inr [] \<Rightarrow> Inr None
           | Inr (link_tag # siblings) \<Rightarrow>
               (case contents link_tag of
                  Inl ex \<Rightarrow> Inl ex
                | Inr [] \<Rightarrow> Inr None
                | Inr (em # rest) \<Rightarrow> Inr (Some em))))"

definition parse_record_name :: "node \<Rightarrow> error + string option" where
  "parse_record_name row =
     (case find_all row ''th'' ''record-data-name'' of
        [] \<Rightarrow> Inr None
      | name_tag # others \<Rightarrow>
          (case find_all name_tag ''span'' ''results-name'' of
             [] \<Rightarrow> Inr None
           | name_span # spans \<Rightarrow>
               (case contents name_span of
                  Inl ex \<Rightarrow> Inl ex
                | Inr [] \<Rightarrow> Inr None
                | Inr (Text s # rest) \<Rightarrow> Inr (Some (strip s))
                | Inr (Tag t cs ks # rest) \<Rightarrow> Inl TypeError)))"

definition parse_record_major :: "node \<Rightarrow> error + node option" where
  "parse_record_major row =
     (case find_all row ''td'' ''record-data-major'' of
        [] \<Rightarrow> Inr None
      | major_tag # others \<Rightarrow>
          (case contents major_tag of
             Inl ex \<Rightarrow> Inl ex
           | Inr [] \<Rightarrow> Inr None
           | Inr (m # rest) \<Rightarrow> Inr (Some m)))"

definition parse_record_org :: "node \<Rightarrow> error + node option" where
  "parse_record_org row =
     (case find_all row ''td'' ''record-data-org'' of
        [] \<Rightarrow> Inr None
      | org_tag # others \<Rightarrow>
          (case contents org_tag of
             Inl ex \<Rightarrow> Inl ex
           | Inr [] \<Rightarrow> Inr None
           | Inr (g # rest) \<Rightarrow> Inr (Some g)))"

subsection \<open>Page parser\<close>

record ContactInfo =
  name :: "string option"
  email :: string
  dotname :: string
  major :: "node option"
  org :: "node option"

text \<open>
  \<open>parse_row\<close> is the body of the loop of \<^verbatim>\<open>parse_emails\<close> for one row: the four
  lookups in the order of the source, then the test \<^verbatim>\<open>if email:\<close> (a missing value
  and the empty string are false, an element is true) and \<^verbatim>\<open>email.partition("@")\<close>,
  a string method again. \<open>parse_records\<close> is the loop, with the list \<open>info\<close> it appends to.
\<close>

definition parse_row :: "node \<Rightarrow> error + ContactInfo option" where
  "parse_row row =
     (case parse_record_email row of
        Inl ex \<Rightarrow> Inl ex
      | Inr em \<Rightarrow>
     (case parse_record_name row of
        Inl ex \<Rightarrow> Inl ex
      | Inr nm \<Rightarrow>
     (case parse_record_major row of
        Inl ex \<Rightarrow> Inl ex
      | Inr mj \<Rightarrow>
     (case parse_record_org row of
        Inl ex \<Rightarrow> Inl ex
      | Inr og \<Rightarrow>
     (case em of
        None \<Rightarrow> Inr None
      | Some (Text s) \<Rightarrow>
          if s = [] then Inr None
          else Inr (Some \<lparr>name = nm, email = s, dotname = fst (str_partition CHR ''@'' s),
                           major = mj, org = og\<rparr>)
      | Some (Tag t cs ks) \<Rightarrow> Inl TypeError)))))"

fun parse_records :: "node list \<Rightarrow> ContactInfo list \<Rightarrow> error + ContactInfo list" where
  "parse_records [] info = Inr info"
| "parse_records (row # rows) info =
     (case parse_row row of
        Inl ex \<Rightarrow> Inl ex
      | Inr None \<Rightarrow> parse_records rows info
      | Inr (Some c) \<Rightarrow> parse_records rows (info @ [c]))"

definition parse_emails :: "collab \<Rightarrow> string \<Rightarrow> error + ContactInfo list" where
  "parse_emails e page =
     (let soup = html_parser e page;
          person_records = find_all soup ''tr'' ''record-data''
      in parse_records person_records [])"

subsection \<open>Output\<close>

text \<open>
  \<open>err\<close> writes a diagnostic with a final newline. \<open>contact_to_str\<close> formats a record:
  \<^verbatim>\<open>format\<close> writes \<^verbatim>\<open>None\<close> for a missing name, a text node as its text and an
  element through \<open>tag_str\<close>; the tests \<^verbatim>\<open>if contact.major:\<close> and
  \<^verbatim>\<open>if contact.org:\<close> are the truth value of the field. \<open>write_info\<close> is the loop that
  writes each record and a newline after it.
\<close>

definition err :: "string \<Rightarrow> world \<Rightarrow> world" where
  "err msg w =
     (let msg' = (if msg \<noteq> [] \<and> last msg \<noteq> NL then msg @ [NL] else msg)
      in w\<lparr>stderr := stderr w @ msg'\<rparr>)"

definition format_name :: "string option \<Rightarrow> string" where
  "format_name v = (case v of None \<Rightarrow> ''None'' | Some s \<Rightarrow> s)"

definition format_node :: "collab \<Rightarrow> node \<Rightarrow> string" where
  "format_node e n = (case n of Text s \<Rightarrow> s | Tag t cs ks \<Rightarrow> tag_str e n)"

definition truthy :: "node option \<Rightarrow> bool" where
  "truthy v = (case v of None \<Rightarrow> False | Some (Text s) \<Rightarrow> s \<noteq> [] | Some (Tag t cs ks) \<Rightarrow> True)"

definition contact_to_str :: "collab \<Rightarrow> ContactInfo \<Rightarrow> string" where
  "contact_to_str e contact =
     (let result = format_name (name contact) @ '' '' @ [NL, TAB] @ ''email: '' @ email contact;
          result = (case major contact of
                      None \<Rightarrow> result
                    | Some m \<Rightarrow> if truthy (Some m)
                               then result @ [NL, TAB] @ ''major: '' @ format_node e m
                               else result);
          result = (case org contact of
                      None \<Rightarrow> result
                    | Some g \<Rightarrow> if truthy (Some g)
                               then result @ [NL, TAB] @ ''org: '' @ format_node e g
                               else result)
      in result)"

fun write_info :: "collab \<Rightarrow> ContactInfo list \<Rightarrow> world \<Rightarrow> world" where
  "write_info e [] w = w"
| "write_info e (i # info) w =
     write_info e info (w\<lparr>outfile := outfile w @ contact_to_str e i @ [NL]\<rparr>)"

subsection \<open>Driver\<close>

text \<open>
  The parsed command line: \<open>name_arg\<close>, \<open>type_arg\<close>, \<open>ratelimit_arg\<close> are the options
  \<^verbatim>\<open>--name\<close>, \<^verbatim>\<open>--type\<close>, \<^verbatim>\<open>--ratelimit\<close>; \<open>batch_arg\<close> holds the lines of the
  \<^verbatim>\<open>--batch\<close> file as iteration over the file yields them and \<open>file_arg\<close> the text of
  the \<^verbatim>\<open>--file\<close> page. The \<^verbatim>\<open>--output\<close> stream is the field \<open>outfile\<close> of the world.
\<close>

record args =
  name_arg :: "string option"
  type_arg :: string
  batch_arg :: "string list option"
  ratelimit_arg :: int
  file_arg :: "string option"

definition name_names :: "string option \<Rightarrow> error + (string \<times> string) list" where
  "name_names v =
     (case v of
        None \<Rightarrow> Inr []
      | Some s \<Rightarrow>
          if s = [] then Inr []
          else (let parts = str_split s
                in if length parts = 1 then Inr [('''', parts ! 0)]
                   else if parts = [] then Inl IndexError
                   else Inr [(parts ! 0, last parts)]))"

fun batch_names :: "string list \<Rightarrow> (string \<times> string) list \<Rightarrow> (string \<times> string) list" where
  "batch_names [] names = names"
| "batch_names (line # lines) names =
     (let parts = str_split (strip line)
      in if length parts = 1 then batch_names lines (names @ [('''', parts ! 0)])
         else if length parts > 1 then batch_names lines (names @ [(parts ! 0, last parts)])
         else batch_names lines names)"

definition resolve_names :: "args \<Rightarrow> error + (string \<times> string) list" where
  "resolve_names a =
     (case name_names (name_arg a) of
        Inl ex \<Rightarrow> Inl ex
      | Inr names \<Rightarrow>
          (case batch_arg a of
             None \<Rightarrow> Inr names
           | Some lines \<Rightarrow> Inr (batch_names lines names)))"

text \<open>
  \<open>wait_turn\<close> is the pacing at the head of the loop of \<open>main\<close>: the delay that is
  left of the interval since \<open>start_time\<close>, the sleep when that delay is positive, and
  the clock value that becomes the new \<open>start_time\<close>, which it logs. \<open>query_loop\<close> is
  the loop over the resolved names. \<open>main\<close> is the driver: the offline mode when
  \<^verbatim>\<open>--file\<close> is given, the online mode otherwise. An exception ends the run with what
  was written before it.
\<close>

definition wait_turn :: "collab \<Rightarrow> int \<Rightarrow> real \<Rightarrow> world \<Rightarrow> real \<times> world" where
  "wait_turn e ratelimit start_time w =
     (case time_time e w of
        (t, w1) \<Rightarrow>
          (let delay = start_time + of_int ratelimit - t;
               w2 = (if delay > 0 then time_sleep delay w1 else w1)
           in case time_time e w2 of
                (start_time', w3) \<Rightarrow>
                  (start_time', w3\<lparr>events := events w3 @ [Started start_time']\<rparr>)))"

fun query_loop ::
  "collab \<Rightarrow> int \<Rightarrow> real \<Rightarrow> (string \<times> string) list \<Rightarrow> world \<Rightarrow> (error + unit) \<times> world" where
  "query_loop e ratelimit start_time [] w = (Inr (), w)"
| "query_loop e ratelimit start_time (nm # names) w =
     (case wait_turn e ratelimit start_time w of
        (start_time', w0) \<Rightarrow>
     (case do_request e (fst nm) (snd nm) '''' ALL' w0 of
        (Inl ex, w1) \<Rightarrow> (Inl ex, w1)
      | (Inr page, w1) \<Rightarrow>
          (case parse_emails e page of
             Inl ex \<Rightarrow> (Inl ex, w1)
           | Inr info \<Rightarrow>
               (let w2 = write_info e info w1;
                    w3 = (if info = []
                          then err (''Failed to find record for name: '' @ tuple_repr e nm) w2
                          else w2)
                in query_loop e ratelimit start_time' names w3))))"

definition main :: "collab \<Rightarrow> args \<Rightarrow> world \<Rightarrow> (error + unit) \<times> world" where
  "main e a w =
     (case file_arg a of
        Some page \<Rightarrow>
          (case parse_emails e page of
             Inl ex \<Rightarrow> (Inl ex, w)
           | Inr info \<Rightarrow>
               (let w1 = write_info e info w
                in (Inr (), if info = [] then err ''Could not find records in input file'' w1
                            else w1)))
      | None \<Rightarrow>
          (case resolve_names a of
             Inl ex \<Rightarrow> (Inl ex, w)
           | Inr names \<Rightarrow>
               (case time_time e w of
                  (t, w0) \<Rightarrow>
                    (let start_time = t - of_int (ratelimit_arg a);
                         w1 = (if names = []
                               then err ''provide name with '-b' or '-n' option. See help for details'' w0
                               else w0)
                     in query_loop e (ratelimit_arg a) start_time names w1))))"

subsection \<open>The pacing of the queries\<close>

text \<open>
  What the log of a run has to show for the queries to be paced: \<open>starts\<close> are the
  logged starts in their order, and \<open>paced interval prev evs\<close> says that every start
  in \<open>evs\<close> is at least \<open>interval\<close> after the start before it, and the first one
  after \<open>prev\<close>.
\<close>

fun starts :: "event list \<Rightarrow> real list" where
  "starts [] = []"
| "starts (Slept d # evs) = starts evs"
| "starts (Started s # evs) = s # starts evs"

fun paced :: "real \<Rightarrow> real \<Rightarrow> event list \<Rightarrow> bool" where
  "paced interval prev [] = True"
| "paced interval prev (Slept d # evs) = paced interval prev evs"
| "paced interval prev (Started s # evs) = (prev + interval \<le> s \<and> paced interval s evs)"

subsection \<open>The shape of the email cell\<close>







text \<open>
  The words of the specification: the link elements nested in a node are the elements
  with the tag name \<^verbatim>\<open>a\<close> below it, and the text of a node is its own text, or for
  an element the texts below it in document order.
\<close>

definition is_link :: "node \<Rightarrow> bool" where
  "is_link n = (case n of Text s \<Rightarrow> False | Tag t cs ks \<Rightarrow> t = ''a'')"

definition link_elements :: "node \<Rightarrow> node list" where
  "link_elements n = filter is_link (descendants n)"

fun node_text :: "node \<Rightarrow> string" where
  "node_text (Text s) = s"
| "node_text (Tag t cs ks) = concat (map node_text ks)"

subsection \<open>Example pages\<close>

text \<open>
  A result row for Jane Doe with a name, an email and a major, rows that lack an email
  in each of the three ways, and collaborators that answer every request with a given
  status and parse every page to a given tree.
\<close>

definition jane_row :: node where
  "jane_row =
     Tag ''tr'' [''record-data'']
       [Tag ''th'' [''record-data-name'']
          [Tag ''span'' [''results-name''] [Text ([CHR 0x20, NL] @ ''Jane Doe'' @ [CHR 0x20])]],
        Tag ''td'' [''record-data-email'']
          [Tag ''a'' [] [Text ''jdoe@example.edu'']],
        Tag ''td'' [''record-data-major''] [Text ''Computer Science'']]"

definition jane_contact :: ContactInfo where
  "jane_contact =
     \<lparr>name = Some ''Jane Doe'', email = ''jdoe@example.edu'', dotname = ''jdoe'',
      major = Some (Text ''Computer Science''), org = None\<rparr>"




definition page_of :: "node list \<Rightarrow> node" where
  "page_of rows = Tag ''[document]'' [] [Tag ''table'' [] rows]"

definition example_collab :: "int \<Rightarrow> node \<Rightarrow> collab" where
  "example_collab status soup =
     \<lparr>http_post = (\<lambda>h u f. Inr \<lparr>status_code = status, content = ''<html>''\<rparr>),
      html_parser = (\<lambda>s. soup),
      tag_str = (\<lambda>n. ''<tag>''),
      tuple_repr = (\<lambda>p. ''('' @ fst p @ '', '' @ snd p @ '')''),
      passes = (\<lambda>w. 1)\<rparr>"







text \<open>
  A row that repeats every cell: \<open>first_cells\<close> come first in the row, and whatever
  is given as \<open>later\<close> follows them.
\<close>

definition first_cells :: "node list" where
  "first_cells =
     [Tag ''th'' [''record-data-name''] [Tag ''span'' [''results-name''] [Text ''First Name'']],
      Tag ''td'' [''record-data-email''] [Tag ''a'' [] [Text ''first@example.edu'']],
      Tag ''td'' [''record-data-major''] [Text ''First Major''],
      Tag ''td'' [''record-data-org''] [Text ''First Org'']]"

definition later_cells :: "node list" where
  "later_cells =
     [Tag ''th'' [''record-data-name''] [Tag ''span'' [''results-name''] [Text ''Later Name'']],
      Tag ''td'' [''record-data-email''] [Tag ''a'' [] [Text ''later@example.edu'']],
      Tag ''td'' [''record-data-major''] [Text ''Later Major''],
      Tag ''td'' [''record-data-org''] [Text ''Later Org'']]"

definition repeated_row :: "node list \<Rightarrow> node" where
  "repeated_row later = Tag ''tr'' [''record-data''] (first_cells @ later)"

text \<open>
  The world before the program has sent or written anything, the form that the loop
  of \<open>main\<close> sends for a pair of names, and a command line that asks for students
  named Jane Doe.
\<close>

definition empty_world :: world where
  "empty_world = \<lparr>posted = [], outfile = [], stderr = [], clock = 0, events = []\<rparr>"

definition query_form :: "string \<times> string \<Rightarrow> form" where
  "query_form nm =
     [(''filter'', ''all''), (''firstname'', fst nm), (''lastname'', snd nm), (''name_n'', '''')]"

definition student_args :: args where
  "student_args =
     \<lparr>name_arg = Some ''Jane Doe'', type_arg = ''student'', batch_arg = None,
      ratelimit_arg = 5, file_arg = None\<rparr>"

definition batch_args :: args where
  "batch_args =
     \<lparr>name_arg = Some ''Jane Doe'', type_arg = ''all'',
      batch_arg = Some [''Ann Roe'', [CHR 0x20, NL], ''Poe''],
      ratelimit_arg = 5, file_arg = None\<rparr>"



text \<open>
  Rows that the lookups treat in other ways: an email cell that holds a \<^verbatim>\<open>span\<close>
  and no link, an email cell that starts with text, a link that holds an element, and a
  row whose name and major are set in bold.
\<close>

definition span_row :: node where
  "span_row =
     Tag ''tr'' [''record-data'']
       [Tag ''td'' [''record-data-email''] [Tag ''span'' [] [Text ''roe.9@example.edu'']]]"

definition span_contact :: ContactInfo where
  "span_contact =
     \<lparr>name = None, email = ''roe.9@example.edu'', dotname = ''roe.9'',
      major = None, org = None\<rparr>"



definition bold_name :: node where
  "bold_name = Tag ''b'' [] [Text ''Ann Roe'']"

definition bold_major :: node where
  "bold_major = Tag ''b'' [] [Text ''Physics'']"

definition bold_name_cell :: node where
  "bold_name_cell =
     Tag ''th'' [''record-data-name''] [Tag ''span'' [''results-name''] [bold_name]]"

definition bold_row :: node where
  "bold_row =
     Tag ''tr'' [''record-data'']
       [bold_name_cell,
        Tag ''td'' [''record-data-email''] [Tag ''a'' [] [Text ''roe.9@example.edu'']],
        Tag ''td'' [''record-data-major''] [bold_major]]"

section \<open>Properties\<close>

subsection \<open>Strings\<close>

lemma fst_str_partition: "fst (str_partition sep s) = takeWhile (\<lambda>x. x \<noteq> sep) s"
  by (induction s) (auto split: prod.splits)

lemma split_sep_nonempty: "split_sep sep s \<noteq> []"
  by (induction s) (auto split: list.splits)

lemma hd_split_sep: "hd (split_sep sep s) = takeWhile (\<lambda>x. x \<noteq> sep) s"
  by (induction s) (auto split: list.splits simp: split_sep_nonempty)

subsection \<open>The page parser\<close>

text \<open>
  The loop only appends: its result is the list it started with, followed by records
  that each come from a row of the page.
\<close>

lemma parse_records_append:
  "parse_records rows info = Inr out \<Longrightarrow>
   \<exists>cs. out = info @ cs \<and> (\<forall>c\<in>set cs. \<exists>row\<in>set rows. parse_row row = Inr (Some c))"
proof (induction rows arbitrary: info)
  case Nil
  then show ?case by simp
next
  case (Cons row rows)
  show ?case
  proof (cases "parse_row row")
    case (Inl ex)
    with Cons.prems show ?thesis by simp
  next
    case (Inr v)
    show ?thesis
    proof (cases v)
      case None
      with Inr Cons.prems have "parse_records rows info = Inr out" by simp
      from Cons.IH [OF this] show ?thesis by auto
    next
      case (Some c)
      with Inr Cons.prems have "parse_records rows (info @ [c]) = Inr out" by simp
      from Cons.IH [OF this] obtain cs where
        cs: "out = (info @ [c]) @ cs" "\<forall>c\<in>set cs. \<exists>row\<in>set rows. parse_row row = Inr (Some c)"
        by blast
      have "out = info @ (c # cs)" using cs(1) by simp
      moreover have "\<forall>d\<in>set (c # cs). \<exists>r\<in>set (row # rows). parse_row r = Inr (Some d)"
        using cs(2) Inr Some by auto
      ultimately show ?thesis by blast
    qed
  qed
qed

lemma parse_emails_from_row:
  assumes "parse_emails e page = Inr info" and "c \<in> set info"
  shows "\<exists>row. parse_row row = Inr (Some c)"
proof -
  from assms(1) have "parse_records (find_all (html_parser e page) ''tr'' ''record-data'') [] = Inr info"
    by (simp add: parse_emails_def)
  from parse_records_append [OF this] assms(2) show ?thesis by auto
qed

lemma parse_row_email:
  "parse_row row = Inr (Some c) \<Longrightarrow>
   email c \<noteq> [] \<and> dotname c = fst (str_partition CHR ''@'' (email c))
   \<and> parse_record_email row = Inr (Some (Text (email c)))"
  by (auto simp: parse_row_def split: sum.splits option.splits node.splits if_splits)

lemmas parser_defs =
  parse_emails_def find_all_def matches_def parse_row_def parse_record_email_def
  parse_record_name_def parse_record_major_def parse_record_org_def contents_def
  strip_def isspace_def page_of_def example_collab_def

lemma parse_jane_page:
  "parse_emails (example_collab 200 (page_of [jane_row])) '''' = Inr [jane_contact]"
  by (simp add: parser_defs jane_row_def jane_contact_def)

text \<open>
  C2: for every ContactInfo that \<open>parse_emails\<close> emits, \<open>dotname\<close> is the prefix of
  \<open>email\<close> up to, and without, the first \<open>@\<close>: it is the first piece of
  \<^verbatim>\<open>email.split("@")\<close>, it is followed by \<open>@\<close> in the email when the email has one,
  and it is the whole email when the email has none.
\<close>

theorem dotname_is_email_prefix:
  assumes "parse_emails e page = Inr info" and "c \<in> set info"
  shows "dotname c = hd (split_sep CHR ''@'' (email c))
       \<and> dotname c = takeWhile (\<lambda>x. x \<noteq> CHR ''@'') (email c)
       \<and> (CHR ''@'' \<in> set (email c) \<longrightarrow> (\<exists>rest. email c = dotname c @ CHR ''@'' # rest))
       \<and> (CHR ''@'' \<notin> set (email c) \<longrightarrow> dotname c = email c)"
proof -
  from parse_emails_from_row [OF assms] obtain row where "parse_row row = Inr (Some c)" ..
  then have d: "dotname c = takeWhile (\<lambda>x. x \<noteq> CHR ''@'') (email c)"
    using parse_row_email [of row c] by (simp add: fst_str_partition)
  have "CHR ''@'' \<in> set (email c) \<Longrightarrow> \<exists>rest. email c = dotname c @ CHR ''@'' # rest"
  proof -
    assume a: "CHR ''@'' \<in> set (email c)"
    have "email c = takeWhile (\<lambda>x. x \<noteq> CHR ''@'') (email c) @ dropWhile (\<lambda>x. x \<noteq> CHR ''@'') (email c)"
      by simp
    moreover from a have "dropWhile (\<lambda>x. x \<noteq> CHR ''@'') (email c) \<noteq> []"
      by simp
    moreover have "dropWhile (\<lambda>x. x \<noteq> CHR ''@'') (email c) \<noteq> [] \<Longrightarrow>
        hd (dropWhile (\<lambda>x. x \<noteq> CHR ''@'') (email c)) = CHR ''@''"
      using hd_dropWhile [of "\<lambda>x. x \<noteq> CHR ''@''" "email c"] by simp
    ultimately show ?thesis
      using d by (metis list.exhaust_sel)
  qed
  moreover have "CHR ''@'' \<notin> set (email c) \<Longrightarrow> dotname c = email c"
    using d by (auto simp: takeWhile_eq_all_conv)
  ultimately show ?thesis
    using d by (simp add: hd_split_sep)
qed

theorem dotname_is_email_prefix_witness:
  "parse_emails (example_collab 200 (page_of [jane_row])) '''' = Inr [jane_contact]
   \<and> jane_contact \<in> set [jane_contact]
   \<and> dotname jane_contact = hd (split_sep CHR ''@'' (email jane_contact))
   \<and> dotname jane_contact = takeWhile (\<lambda>x. x \<noteq> CHR ''@'') (email jane_contact)
   \<and> CHR ''@'' \<in> set (email jane_contact)
   \<and> (\<exists>rest. email jane_contact = dotname jane_contact @ CHR ''@'' # rest)"
proof -
  have m: "jane_contact \<in> set [jane_contact]" by simp
  have a: "CHR ''@'' \<in> set (email jane_contact)" by (simp add: jane_contact_def)
  from dotname_is_email_prefix [OF parse_jane_page m] parse_jane_page m a
  show ?thesis by blast
qed


lemmas row_defs =
  find_all_def matches_def parse_row_def parse_record_email_def
  parse_record_name_def parse_record_major_def parse_record_org_def contents_def
  strip_def isspace_def

lemma parse_row_jane: "parse_row jane_row = Inr (Some jane_contact)"
  by (simp add: row_defs jane_row_def jane_contact_def)






subsection \<open>The field lookups\<close>

lemma find_all_children:
  "find_all (Tag t cs ks) tag cls =
     concat (map (\<lambda>k. (if matches tag cls k then [k] else []) @ find_all k tag cls) ks)"
  by (auto simp: find_all_def filter_concat comp_def intro!: arg_cong [where f = concat])




















subsection \<open>Rows without an email\<close>








lemma parse_row_span: "parse_row span_row = Inr (Some span_contact)"
  by (simp add: row_defs span_row_def span_contact_def)

lemma span_rows:
  "find_all (html_parser (example_collab 200 (page_of [span_row])) '''') ''tr'' ''record-data''
     = [span_row]"
  by (simp add: example_collab_def page_of_def find_all_def matches_def span_row_def)

lemma span_page:
  "parse_emails (example_collab 200 (page_of [span_row])) '''' = Inr [span_contact]"
  unfolding parse_emails_def Let_def span_rows
  by (simp add: parse_row_span)



text \<open>
  C3 as stated asks that a row whose email cell has no nested link element gives no
  ContactInfo. The email cell of the row below holds a \<^verbatim>\<open>span\<close> and no link
  element, and \<open>parse_emails\<close> emits a ContactInfo for it.
\<close>

theorem record_from_a_cell_without_link:
  "find_all span_row ''td'' ''record-data-email'' =
     [Tag ''td'' [''record-data-email''] [Tag ''span'' [] [Text ''roe.9@example.edu'']]]
   \<and> link_elements (Tag ''td'' [''record-data-email''] [Tag ''span'' [] [Text ''roe.9@example.edu'']]) = []
   \<and> find_all (html_parser (example_collab 200 (page_of [span_row])) '''') ''tr'' ''record-data''
        = [span_row]
   \<and> parse_emails (example_collab 200 (page_of [span_row])) '''' = Inr [span_contact]
   \<and> email span_contact = ''roe.9@example.edu''"
proof -
  have "find_all span_row ''td'' ''record-data-email'' =
     [Tag ''td'' [''record-data-email''] [Tag ''span'' [] [Text ''roe.9@example.edu'']]]"
    by (simp add: span_row_def find_all_def matches_def)
  moreover have "link_elements (Tag ''td'' [''record-data-email'']
      [Tag ''span'' [] [Text ''roe.9@example.edu'']]) = []"
    by (simp add: link_elements_def is_link_def)
  moreover have "find_all (html_parser (example_collab 200 (page_of [span_row])) '''') ''tr'' ''record-data''
        = [span_row]"
    by (simp add: example_collab_def page_of_def find_all_def matches_def span_row_def)
  moreover have "email span_contact = ''roe.9@example.edu''"
    by (simp add: span_contact_def)
  ultimately show ?thesis
    using span_page by simp
qed

subsection \<open>Trimming and the field values\<close>

lemma strip_decomp:
  "\<exists>l r. s = l @ strip s @ r \<and> (\<forall>x\<in>set l. isspace x) \<and> (\<forall>x\<in>set r. isspace x)"
proof -
  define d where "d = dropWhile isspace s"
  have s: "s = takeWhile isspace s @ d"
    by (simp add: d_def)
  have "d = rev (takeWhile isspace (rev d) @ dropWhile isspace (rev d))"
    by (simp only: takeWhile_dropWhile_id rev_rev_ident)
  also have "\<dots> = rev (dropWhile isspace (rev d)) @ rev (takeWhile isspace (rev d))"
    by (simp only: rev_append)
  finally have d: "d = strip s @ rev (takeWhile isspace (rev d))"
    by (simp add: strip_def d_def)
  have l: "\<forall>x\<in>set (takeWhile isspace s). isspace x"
    by (auto dest: set_takeWhileD)
  have r: "\<forall>x\<in>set (rev (takeWhile isspace (rev d))). isspace x"
    by (auto dest: set_takeWhileD)
  from s d have "s = takeWhile isspace s @ strip s @ rev (takeWhile isspace (rev d))"
    by simp
  with l r show ?thesis by blast
qed








lemma bold_cells:
  "find_all bold_row ''th'' ''record-data-name'' = bold_name_cell # []"
  "find_all bold_name_cell ''span'' ''results-name'' =
     Tag ''span'' [''results-name''] [bold_name] # []"
  "contents (Tag ''span'' [''results-name''] [bold_name]) = Inr (Tag ''b'' [] [Text ''Ann Roe''] # [])"
  by (simp_all add: bold_row_def bold_name_cell_def bold_name_def bold_major_def
      find_all_def matches_def contents_def)

lemma bold_rows:
  "find_all (html_parser (example_collab 200 (page_of [jane_row, bold_row])) '''') ''tr'' ''record-data''
     = [jane_row, bold_row]"
  by (simp add: example_collab_def page_of_def find_all_def matches_def jane_row_def bold_row_def
      bold_name_cell_def bold_name_def bold_major_def)

lemma bold_lookups:
  "parse_record_email bold_row = Inr (Some (Text ''roe.9@example.edu''))"
  "parse_record_name bold_row = Inl TypeError"
  "parse_record_major bold_row = Inr (Some bold_major)"
  "parse_record_org bold_row = Inr None"
  by (simp_all add: parse_record_email_def parse_record_name_def parse_record_major_def
      parse_record_org_def contents_def find_all_def matches_def bold_row_def bold_name_cell_def
      bold_name_def bold_major_def)

lemma parse_row_bold: "parse_row bold_row = Inl TypeError"
  by (simp add: parse_row_def bold_lookups)

lemma bold_page:
  "parse_emails (example_collab 200 (page_of [jane_row, bold_row])) '''' = Inl TypeError"
  unfolding parse_emails_def Let_def bold_rows
  by (simp add: parse_row_jane parse_row_bold)



text \<open>
  C8 as stated asks, for every row, that the extracted name is the trimmed text of the
  first child node, that the major is the text of the first child node, and that the
  fields do not affect each other. In the row below the name and the major are set in
  bold: the text of the first child of the name span is \<open>Ann Roe\<close>, but the name
  lookup raises \<open>TypeError\<close>, and with it the row and the page, although the email
  lookup found an email and the row before it gave a record; the extracted major is the
  element, not its text.
\<close>

theorem element_name_is_not_extracted:
  "find_all bold_row ''th'' ''record-data-name'' = [bold_name_cell]
   \<and> find_all bold_name_cell ''span'' ''results-name'' = [Tag ''span'' [''results-name''] [bold_name]]
   \<and> contents (Tag ''span'' [''results-name''] [bold_name]) = Inr [bold_name]
   \<and> node_text bold_name = ''Ann Roe''
   \<and> parse_record_name bold_row = Inl TypeError
   \<and> parse_record_email bold_row = Inr (Some (Text ''roe.9@example.edu''))
   \<and> parse_row bold_row = Inl TypeError
   \<and> find_all (html_parser (example_collab 200 (page_of [jane_row, bold_row])) '''') ''tr'' ''record-data''
        = [jane_row, bold_row]
   \<and> parse_row jane_row = Inr (Some jane_contact)
   \<and> parse_emails (example_collab 200 (page_of [jane_row, bold_row])) '''' = Inl TypeError
   \<and> node_text bold_major = ''Physics''
   \<and> parse_record_major bold_row = Inr (Some bold_major)
   \<and> bold_major \<noteq> Text ''Physics''"
proof -
  have "contents (Tag ''span'' [''results-name''] [bold_name]) = Inr [bold_name]"
    by (simp add: contents_def)
  moreover have "node_text bold_name = ''Ann Roe''" "node_text bold_major = ''Physics''"
    "bold_major \<noteq> Text ''Physics''"
    by (simp_all add: bold_name_def bold_major_def)
  ultimately show ?thesis
    using bold_cells(1,2) bold_lookups(1-3) parse_row_bold bold_rows parse_row_jane bold_page
    by (intro conjI) assumption+
qed


subsection \<open>Repeated cells\<close>

lemma repeated_cells:
  "find_all (repeated_row later_cells) ''td'' ''record-data-email'' =
     Tag ''td'' [''record-data-email''] [Tag ''a'' [] [Text ''first@example.edu'']]
     # [Tag ''td'' [''record-data-email''] [Tag ''a'' [] [Text ''later@example.edu'']]]"
  "find_all (repeated_row []) ''td'' ''record-data-email'' =
     Tag ''td'' [''record-data-email''] [Tag ''a'' [] [Text ''first@example.edu'']] # []"
  "find_all (repeated_row later_cells) ''th'' ''record-data-name'' =
     Tag ''th'' [''record-data-name''] [Tag ''span'' [''results-name''] [Text ''First Name'']]
     # [Tag ''th'' [''record-data-name''] [Tag ''span'' [''results-name''] [Text ''Later Name'']]]"
  "find_all (repeated_row []) ''th'' ''record-data-name'' =
     Tag ''th'' [''record-data-name''] [Tag ''span'' [''results-name''] [Text ''First Name'']] # []"
  "find_all (repeated_row later_cells) ''td'' ''record-data-major'' =
     Tag ''td'' [''record-data-major''] [Text ''First Major'']
     # [Tag ''td'' [''record-data-major''] [Text ''Later Major'']]"
  "find_all (repeated_row []) ''td'' ''record-data-major'' =
     Tag ''td'' [''record-data-major''] [Text ''First Major''] # []"
  "find_all (repeated_row later_cells) ''td'' ''record-data-org'' =
     Tag ''td'' [''record-data-org''] [Text ''First Org'']
     # [Tag ''td'' [''record-data-org''] [Text ''Later Org'']]"
  "find_all (repeated_row []) ''td'' ''record-data-org'' =
     Tag ''td'' [''record-data-org''] [Text ''First Org''] # []"
  by (simp_all add: repeated_row_def first_cells_def later_cells_def find_all_def matches_def)

lemma repeated_first:
  "parse_record_email (repeated_row []) = Inr (Some (Text ''first@example.edu''))"
  "parse_record_name (repeated_row []) = Inr (Some ''First Name'')"
  "parse_record_major (repeated_row []) = Inr (Some (Text ''First Major''))"
  "parse_record_org (repeated_row []) = Inr (Some (Text ''First Org''))"
  by (simp_all add: repeated_row_def first_cells_def row_defs)

lemma find_all_first:
  assumes "matches tag cls cell"
    and "list_all (\<lambda>k. \<not> matches tag cls k \<and> find_all k tag cls = []) pre"
  shows "find_all (Tag t cl (pre @ cell # post)) tag cls =
           cell # find_all cell tag cls @ find_all (Tag t cl post) tag cls"
proof -
  have "concat (map (\<lambda>k. (if matches tag cls k then [k] else []) @ find_all k tag cls) pre) = []"
    using assms(2) by (induction pre) simp_all
  then show ?thesis
    using assms(1) by (simp add: find_all_children)
qed

lemma first_example:
  "matches ''td'' ''record-data-org'' (Tag ''td'' [''record-data-org''] [Text ''First Org''])"
  "list_all (\<lambda>k. \<not> matches ''td'' ''record-data-org'' k \<and> find_all k ''td'' ''record-data-org'' = [])
     [Text ''x'', Tag ''td'' [''record-data-major''] [Text ''First Major'']]"
  by (simp_all add: matches_def find_all_def)

text \<open>
  C10: when a row has several cells that match the selector of a field, only the first
  one in document order counts. \<open>find_all\<close> lists the matches in document order: a
  matching child comes first when nothing before it matches, whatever follows it. Two
  rows whose first matching cell is the same give the same email, name, major and org,
  whatever cells match after it. For the name the same holds for the name span inside
  the first name cell.
\<close>

theorem first_matching_cell_only:
  "(matches tag cls cell \<longrightarrow>
    list_all (\<lambda>k. \<not> matches tag cls k \<and> find_all k tag cls = []) pre \<longrightarrow>
      find_all (Tag t cl (pre @ cell # post)) tag cls =
        cell # find_all cell tag cls @ find_all (Tag t cl post) tag cls)
   \<and> (find_all row ''td'' ''record-data-email'' = c # cs \<longrightarrow>
    find_all row' ''td'' ''record-data-email'' = c # cs' \<longrightarrow>
      parse_record_email row = parse_record_email row')
   \<and> (find_all row ''th'' ''record-data-name'' = c # cs \<longrightarrow>
      find_all row' ''th'' ''record-data-name'' = c # cs' \<longrightarrow>
        parse_record_name row = parse_record_name row')
   \<and> (find_all row ''th'' ''record-data-name'' = c # cs \<longrightarrow>
      find_all c ''span'' ''results-name'' = sp # sps \<longrightarrow>
      find_all row' ''th'' ''record-data-name'' = c' # cs' \<longrightarrow>
      find_all c' ''span'' ''results-name'' = sp # sps' \<longrightarrow>
        parse_record_name row = parse_record_name row')
   \<and> (find_all row ''td'' ''record-data-major'' = c # cs \<longrightarrow>
      find_all row' ''td'' ''record-data-major'' = c # cs' \<longrightarrow>
        parse_record_major row = parse_record_major row')
   \<and> (find_all row ''td'' ''record-data-org'' = c # cs \<longrightarrow>
      find_all row' ''td'' ''record-data-org'' = c # cs' \<longrightarrow>
        parse_record_org row = parse_record_org row')"
proof (intro conjI impI)
  assume "matches tag cls cell"
    and "list_all (\<lambda>k. \<not> matches tag cls k \<and> find_all k tag cls = []) pre"
  then show "find_all (Tag t cl (pre @ cell # post)) tag cls =
        cell # find_all cell tag cls @ find_all (Tag t cl post) tag cls"
    by (rule find_all_first)
next
  assume "find_all row ''td'' ''record-data-email'' = c # cs"
    and "find_all row' ''td'' ''record-data-email'' = c # cs'"
  then show "parse_record_email row = parse_record_email row'"
    by (simp add: parse_record_email_def)
next
  assume "find_all row ''th'' ''record-data-name'' = c # cs"
    and "find_all row' ''th'' ''record-data-name'' = c # cs'"
  then show "parse_record_name row = parse_record_name row'"
    by (simp add: parse_record_name_def)
next
  assume "find_all row ''th'' ''record-data-name'' = c # cs"
    and "find_all c ''span'' ''results-name'' = sp # sps"
    and "find_all row' ''th'' ''record-data-name'' = c' # cs'"
    and "find_all c' ''span'' ''results-name'' = sp # sps'"
  then show "parse_record_name row = parse_record_name row'"
    by (simp add: parse_record_name_def)
next
  assume "find_all row ''td'' ''record-data-major'' = c # cs"
    and "find_all row' ''td'' ''record-data-major'' = c # cs'"
  then show "parse_record_major row = parse_record_major row'"
    by (simp add: parse_record_major_def)
next
  assume "find_all row ''td'' ''record-data-org'' = c # cs"
    and "find_all row' ''td'' ''record-data-org'' = c # cs'"
  then show "parse_record_org row = parse_record_org row'"
    by (simp add: parse_record_org_def)
qed

theorem first_matching_cell_only_witness:
  "find_all (repeated_row later_cells) ''td'' ''record-data-email'' =
     Tag ''td'' [''record-data-email''] [Tag ''a'' [] [Text ''first@example.edu'']]
     # [Tag ''td'' [''record-data-email''] [Tag ''a'' [] [Text ''later@example.edu'']]]
   \<and> find_all (repeated_row []) ''td'' ''record-data-email'' =
     Tag ''td'' [''record-data-email''] [Tag ''a'' [] [Text ''first@example.edu'']] # []
   \<and> parse_record_email (repeated_row later_cells) = Inr (Some (Text ''first@example.edu''))
   \<and> find_all (repeated_row later_cells) ''th'' ''record-data-name'' =
     Tag ''th'' [''record-data-name''] [Tag ''span'' [''results-name''] [Text ''First Name'']]
     # [Tag ''th'' [''record-data-name''] [Tag ''span'' [''results-name''] [Text ''Later Name'']]]
   \<and> find_all (repeated_row []) ''th'' ''record-data-name'' =
     Tag ''th'' [''record-data-name''] [Tag ''span'' [''results-name''] [Text ''First Name'']] # []
   \<and> parse_record_name (repeated_row later_cells) = Inr (Some ''First Name'')
   \<and> find_all (repeated_row later_cells) ''td'' ''record-data-major'' =
     Tag ''td'' [''record-data-major''] [Text ''First Major'']
     # [Tag ''td'' [''record-data-major''] [Text ''Later Major'']]
   \<and> find_all (repeated_row []) ''td'' ''record-data-major'' =
     Tag ''td'' [''record-data-major''] [Text ''First Major''] # []
   \<and> parse_record_major (repeated_row later_cells) = Inr (Some (Text ''First Major''))
   \<and> find_all (repeated_row later_cells) ''td'' ''record-data-org'' =
     Tag ''td'' [''record-data-org''] [Text ''First Org'']
     # [Tag ''td'' [''record-data-org''] [Text ''Later Org'']]
   \<and> find_all (repeated_row []) ''td'' ''record-data-org'' =
     Tag ''td'' [''record-data-org''] [Text ''First Org''] # []
   \<and> parse_record_org (repeated_row later_cells) = Inr (Some (Text ''First Org''))
   \<and> matches ''td'' ''record-data-org'' (Tag ''td'' [''record-data-org''] [Text ''First Org''])
   \<and> list_all (\<lambda>k. \<not> matches ''td'' ''record-data-org'' k
                    \<and> find_all k ''td'' ''record-data-org'' = [])
         [Text ''x'', Tag ''td'' [''record-data-major''] [Text ''First Major'']]
   \<and> find_all (Tag ''tr'' [''record-data'']
         ([Text ''x'', Tag ''td'' [''record-data-major''] [Text ''First Major'']]
          @ Tag ''td'' [''record-data-org''] [Text ''First Org'']
          # [Tag ''td'' [''record-data-org''] [Text ''Later Org'']])) ''td'' ''record-data-org'' =
       Tag ''td'' [''record-data-org''] [Text ''First Org'']
       # find_all (Tag ''td'' [''record-data-org''] [Text ''First Org'']) ''td'' ''record-data-org''
       @ find_all (Tag ''tr'' [''record-data''] [Tag ''td'' [''record-data-org''] [Text ''Later Org'']])
           ''td'' ''record-data-org''"
proof -
  have "parse_record_email (repeated_row later_cells) = parse_record_email (repeated_row [])"
    using first_matching_cell_only
      [of "''td''" "''x''" "Text []" "[]" "''tr''" "[]" "[]" "repeated_row later_cells"
          "Tag ''td'' [''record-data-email''] [Tag ''a'' [] [Text ''first@example.edu'']]"
          "[Tag ''td'' [''record-data-email''] [Tag ''a'' [] [Text ''later@example.edu'']]]"
          "repeated_row []" "[]" "Text []" "[]" "Text []" "[]"]
      repeated_cells(1,2) by blast
  moreover
  have "parse_record_name (repeated_row later_cells) = parse_record_name (repeated_row [])"
    using first_matching_cell_only
      [of "''td''" "''x''" "Text []" "[]" "''tr''" "[]" "[]" "repeated_row later_cells"
          "Tag ''th'' [''record-data-name''] [Tag ''span'' [''results-name''] [Text ''First Name'']]"
          "[Tag ''th'' [''record-data-name''] [Tag ''span'' [''results-name''] [Text ''Later Name'']]]"
          "repeated_row []" "[]" "Text []" "[]" "Text []" "[]"]
      repeated_cells(3,4) by blast
  moreover
  have "parse_record_major (repeated_row later_cells) = parse_record_major (repeated_row [])"
    using first_matching_cell_only
      [of "''td''" "''x''" "Text []" "[]" "''tr''" "[]" "[]" "repeated_row later_cells"
          "Tag ''td'' [''record-data-major''] [Text ''First Major'']"
          "[Tag ''td'' [''record-data-major''] [Text ''Later Major'']]"
          "repeated_row []" "[]" "Text []" "[]" "Text []" "[]"]
      repeated_cells(5,6) by blast
  moreover
  have "parse_record_org (repeated_row later_cells) = parse_record_org (repeated_row [])"
    using first_matching_cell_only
      [of "''td''" "''x''" "Text []" "[]" "''tr''" "[]" "[]" "repeated_row later_cells"
          "Tag ''td'' [''record-data-org''] [Text ''First Org'']"
          "[Tag ''td'' [''record-data-org''] [Text ''Later Org'']]"
          "repeated_row []" "[]" "Text []" "[]" "Text []" "[]"]
      repeated_cells(7,8) by blast
  moreover
  have "find_all (Tag ''tr'' [''record-data'']
         ([Text ''x'', Tag ''td'' [''record-data-major''] [Text ''First Major'']]
          @ Tag ''td'' [''record-data-org''] [Text ''First Org'']
          # [Tag ''td'' [''record-data-org''] [Text ''Later Org'']])) ''td'' ''record-data-org'' =
       Tag ''td'' [''record-data-org''] [Text ''First Org'']
       # find_all (Tag ''td'' [''record-data-org''] [Text ''First Org'']) ''td'' ''record-data-org''
       @ find_all (Tag ''tr'' [''record-data''] [Tag ''td'' [''record-data-org''] [Text ''Later Org'']])
           ''td'' ''record-data-org''"
    using first_matching_cell_only
      [of "''td''" "''record-data-org''" "Tag ''td'' [''record-data-org''] [Text ''First Org'']"
          "[Text ''x'', Tag ''td'' [''record-data-major''] [Text ''First Major'']]"
          "''tr''" "[''record-data'']" "[Tag ''td'' [''record-data-org''] [Text ''Later Org'']]"
          "Text []" "Text []" "[]" "Text []" "[]" "Text []" "[]" "Text []" "[]"]
      first_example by blast
  ultimately show ?thesis
    using repeated_cells repeated_first first_example by simp
qed

subsection \<open>The query client\<close>

lemma category_set: "{ALL', STUDENT, EMPLOYEE} = {''all'', ''student'', ''employee''}"
  by (simp add: ALL'_def STUDENT_def EMPLOYEE_def)

lemma do_request_invalid:
  "cat \<notin> {''all'', ''student'', ''employee''} \<Longrightarrow>
   do_request e fname lname dname cat w = (Inl (InvalidRequest ''invalid category''), w)"
  by (simp add: do_request_def category_set)

lemma do_request_posts:
  "cat \<in> {''all'', ''student'', ''employee''} \<Longrightarrow>
   snd (do_request e fname lname dname cat w) =
     w\<lparr>posted := posted w @ [(URL, [(''filter'', cat), (''firstname'', fname),
                                      (''lastname'', lname), (''name_n'', dname)])]\<rparr>"
  by (auto simp: do_request_def category_set requests_post_def Let_def split: sum.splits)

lemma do_request_response:
  "cat \<in> {''all'', ''student'', ''employee''} \<Longrightarrow>
   http_post e (posted w) URL [(''filter'', cat), (''firstname'', fname),
                               (''lastname'', lname), (''name_n'', dname)] = Inr resp \<Longrightarrow>
   fst (do_request e fname lname dname cat w) =
     (if status_code resp \<noteq> 200
      then Inl (RequestFailure (''Bad status code: '' @ str_int (status_code resp)))
      else Inr (content resp))"
  by (auto simp: do_request_def category_set requests_post_def Let_def)

lemma do_request_client_error:
  "cat \<in> {''all'', ''student'', ''employee''} \<Longrightarrow>
   http_post e (posted w) URL [(''filter'', cat), (''firstname'', fname),
                               (''lastname'', lname), (''name_n'', dname)] = Inl msg \<Longrightarrow>
   fst (do_request e fname lname dname cat w) = Inl (ClientError msg)"
  by (auto simp: do_request_def category_set requests_post_def Let_def)

lemma do_request_invalid_iff:
  "(\<exists>m. fst (do_request e fname lname dname cat w) = Inl (InvalidRequest m))
     \<longleftrightarrow> cat \<notin> {''all'', ''student'', ''employee''}"
proof (cases "cat \<in> {''all'', ''student'', ''employee''}")
  case True
  show ?thesis
  proof (cases "http_post e (posted w) URL [(''filter'', cat), (''firstname'', fname),
                               (''lastname'', lname), (''name_n'', dname)]")
    case (Inl msg)
    from do_request_client_error [OF True this] True show ?thesis by simp
  next
    case (Inr resp)
    from do_request_response [OF True this] True show ?thesis by simp
  qed
next
  case False
  from do_request_invalid [OF this] False show ?thesis by simp
qed

text \<open>
  C4: \<open>do_request\<close> raises \<open>InvalidRequest\<close> exactly when the category is not one of
  all, student, employee, and then the world is unchanged: nothing was sent. With a
  valid category it sends one form; when the client returns a response, it raises
  \<open>RequestFailure\<close> exactly when the status is not 200, with the status code in the
  message, and returns the body of the response otherwise.
\<close>

theorem do_request_outcomes:
  "((\<exists>m. fst (do_request e fname lname dname cat w) = Inl (InvalidRequest m))
      \<longleftrightarrow> cat \<notin> {''all'', ''student'', ''employee''})
   \<and> (cat \<notin> {''all'', ''student'', ''employee''} \<longrightarrow>
        do_request e fname lname dname cat w = (Inl (InvalidRequest ''invalid category''), w))
   \<and> (cat \<in> {''all'', ''student'', ''employee''} \<longrightarrow>
        snd (do_request e fname lname dname cat w) =
          w\<lparr>posted := posted w @ [(URL, [(''filter'', cat), (''firstname'', fname),
                                           (''lastname'', lname), (''name_n'', dname)])]\<rparr>)
   \<and> (cat \<in> {''all'', ''student'', ''employee''} \<longrightarrow>
      http_post e (posted w) URL [(''filter'', cat), (''firstname'', fname),
                                  (''lastname'', lname), (''name_n'', dname)] = Inr resp \<longrightarrow>
        ((\<exists>m. fst (do_request e fname lname dname cat w) = Inl (RequestFailure m))
           \<longleftrightarrow> status_code resp \<noteq> 200)
        \<and> (status_code resp \<noteq> 200 \<longrightarrow>
             fst (do_request e fname lname dname cat w) =
               Inl (RequestFailure (''Bad status code: '' @ str_int (status_code resp))))
        \<and> (status_code resp = 200 \<longrightarrow>
             fst (do_request e fname lname dname cat w) = Inr (content resp)))"
proof (intro conjI impI)
  show "(\<exists>m. fst (do_request e fname lname dname cat w) = Inl (InvalidRequest m))
      \<longleftrightarrow> cat \<notin> {''all'', ''student'', ''employee''}"
    by (rule do_request_invalid_iff)
next
  assume "cat \<notin> {''all'', ''student'', ''employee''}"
  then show "do_request e fname lname dname cat w = (Inl (InvalidRequest ''invalid category''), w)"
    by (rule do_request_invalid)
next
  assume "cat \<in> {''all'', ''student'', ''employee''}"
  then show "snd (do_request e fname lname dname cat w) =
          w\<lparr>posted := posted w @ [(URL, [(''filter'', cat), (''firstname'', fname),
                                           (''lastname'', lname), (''name_n'', dname)])]\<rparr>"
    by (rule do_request_posts)
next
  assume c: "cat \<in> {''all'', ''student'', ''employee''}"
    and r: "http_post e (posted w) URL [(''filter'', cat), (''firstname'', fname),
                                  (''lastname'', lname), (''name_n'', dname)] = Inr resp"
  note d = do_request_response [OF c r]
  show "(\<exists>m. fst (do_request e fname lname dname cat w) = Inl (RequestFailure m))
           \<longleftrightarrow> status_code resp \<noteq> 200"
    using d by simp
  show "fst (do_request e fname lname dname cat w) =
               Inl (RequestFailure (''Bad status code: '' @ str_int (status_code resp)))"
    if "status_code resp \<noteq> 200"
    using d that by simp
  show "fst (do_request e fname lname dname cat w) = Inr (content resp)"
    if "status_code resp = 200"
    using d that by simp
qed

lemma str_int_404: "str_int 404 = ''404''"
  by (simp add: str_int_def digits.simps)

theorem do_request_outcomes_witness:
  "''invalid'' \<notin> {''all'', ''student'', ''employee''}
   \<and> do_request (example_collab 404 (page_of [])) ''Jane'' ''Doe'' '''' ''invalid'' empty_world
       = (Inl (InvalidRequest ''invalid category''), empty_world)
   \<and> ''student'' \<in> {''all'', ''student'', ''employee''}
   \<and> http_post (example_collab 404 (page_of [])) (posted empty_world) URL
        [(''filter'', ''student''), (''firstname'', ''Jane''), (''lastname'', ''Doe''),
         (''name_n'', '''')] = Inr \<lparr>status_code = 404, content = ''<html>''\<rparr>
   \<and> status_code \<lparr>status_code = 404, content = ''<html>''\<rparr> \<noteq> 200
   \<and> fst (do_request (example_collab 404 (page_of [])) ''Jane'' ''Doe'' '''' ''student'' empty_world)
       = Inl (RequestFailure ''Bad status code: 404'')
   \<and> posted (snd (do_request (example_collab 404 (page_of [])) ''Jane'' ''Doe'' '''' ''student''
        empty_world))
       = [(URL, [(''filter'', ''student''), (''firstname'', ''Jane''), (''lastname'', ''Doe''),
                 (''name_n'', '''')])]
   \<and> http_post (example_collab 200 (page_of [])) (posted empty_world) URL
        [(''filter'', ''student''), (''firstname'', ''Jane''), (''lastname'', ''Doe''),
         (''name_n'', '''')] = Inr \<lparr>status_code = 200, content = ''<html>''\<rparr>
   \<and> status_code \<lparr>status_code = 200, content = ''<html>''\<rparr> = 200
   \<and> fst (do_request (example_collab 200 (page_of [])) ''Jane'' ''Doe'' '''' ''student'' empty_world)
       = Inr ''<html>''"
proof -
  have i: "''invalid'' \<notin> {''all'', ''student'', ''employee''}"
    and s: "''student'' \<in> {''all'', ''student'', ''employee''}"
    by simp_all
  have p4: "http_post (example_collab 404 (page_of [])) (posted empty_world) URL
        [(''filter'', ''student''), (''firstname'', ''Jane''), (''lastname'', ''Doe''),
         (''name_n'', '''')] = Inr \<lparr>status_code = 404, content = ''<html>''\<rparr>"
    and p2: "http_post (example_collab 200 (page_of [])) (posted empty_world) URL
        [(''filter'', ''student''), (''firstname'', ''Jane''), (''lastname'', ''Doe''),
         (''name_n'', '''')] = Inr \<lparr>status_code = 200, content = ''<html>''\<rparr>"
    by (simp_all add: example_collab_def)
  note a = do_request_outcomes
    [of "example_collab 404 (page_of [])" "''Jane''" "''Doe''" "''''" "''invalid''" empty_world
        "\<lparr>status_code = 404, content = ''<html>''\<rparr>"]
  note b = do_request_outcomes
    [of "example_collab 404 (page_of [])" "''Jane''" "''Doe''" "''''" "''student''" empty_world
        "\<lparr>status_code = 404, content = ''<html>''\<rparr>"]
  note c = do_request_outcomes
    [of "example_collab 200 (page_of [])" "''Jane''" "''Doe''" "''''" "''student''" empty_world
        "\<lparr>status_code = 200, content = ''<html>''\<rparr>"]
  have 1: "do_request (example_collab 404 (page_of [])) ''Jane'' ''Doe'' '''' ''invalid'' empty_world
       = (Inl (InvalidRequest ''invalid category''), empty_world)"
    using a i by blast
  have 2: "fst (do_request (example_collab 404 (page_of [])) ''Jane'' ''Doe'' '''' ''student'' empty_world)
       = Inl (RequestFailure ''Bad status code: 404'')"
    using b s p4 str_int_404 by simp
  have 3: "posted (snd (do_request (example_collab 404 (page_of [])) ''Jane'' ''Doe'' '''' ''student''
        empty_world))
       = [(URL, [(''filter'', ''student''), (''firstname'', ''Jane''), (''lastname'', ''Doe''),
                 (''name_n'', '''')])]"
    using b s by (simp add: empty_world_def)
  have 4: "fst (do_request (example_collab 200 (page_of [])) ''Jane'' ''Doe'' '''' ''student'' empty_world)
       = Inr ''<html>''"
    using c s p2 by simp
  show ?thesis
    using i s p4 p2 1 2 3 4 by simp
qed


subsection \<open>The driver\<close>

lemma write_info_keeps:
  "posted (write_info e info w) = posted w"
  "stderr (write_info e info w) = stderr w"
  "clock (write_info e info w) = clock w"
  "events (write_info e info w) = events w"
  by (induction info arbitrary: w) simp_all


lemma err_keeps:
  "posted (err msg w) = posted w" "outfile (err msg w) = outfile w"
  "clock (err msg w) = clock w" "events (err msg w) = events w"
  by (simp_all add: err_def Let_def)

lemma do_request_all:
  "snd (do_request e (fst nm) (snd nm) '''' ALL' w) = w\<lparr>posted := posted w @ [(URL, query_form nm)]\<rparr>"
  using do_request_posts [of "''all''" e "fst nm" "snd nm" "''''" w]
  by (simp add: ALL'_def query_form_def)

lemma wait_turn_keeps:
  "posted (snd (wait_turn e r st w)) = posted w"
  "outfile (snd (wait_turn e r st w)) = outfile w"
  "stderr (snd (wait_turn e r st w)) = stderr w"
  by (simp_all add: wait_turn_def time_time_def time_sleep_def Let_def)

text \<open>
  One pass of the loop: the world after the pacing, after the query and its output.
\<close>

lemma query_loop_step:
  "query_loop e r st (nm # names) w =
     (let w0 = snd (wait_turn e r st w);
          w1 = w0\<lparr>posted := posted w0 @ [(URL, query_form nm)]\<rparr>
      in case fst (do_request e (fst nm) (snd nm) '''' ALL' w0) of
           Inl ex \<Rightarrow> (Inl ex, w1)
         | Inr page \<Rightarrow>
             (case parse_emails e page of
                Inl ex \<Rightarrow> (Inl ex, w1)
              | Inr info \<Rightarrow>
                  query_loop e r (fst (wait_turn e r st w)) names
                    (if info = []
                     then err (''Failed to find record for name: '' @ tuple_repr e nm)
                            (write_info e info w1)
                     else write_info e info w1)))"
proof -
  obtain s w0 where wt: "wait_turn e r st w = (s, w0)"
    by (cases "wait_turn e r st w")
  obtain res w1 where d: "do_request e (fst nm) (snd nm) '''' ALL' w0 = (res, w1)"
    by (cases "do_request e (fst nm) (snd nm) '''' ALL' w0")
  with do_request_all [of e nm w0] have w1: "w1 = w0\<lparr>posted := posted w0 @ [(URL, query_form nm)]\<rparr>"
    by simp
  show ?thesis
    using wt d w1 by (simp add: Let_def split: sum.splits)
qed

lemma query_loop_posted:
  "\<exists>k\<le>length names.
     posted (snd (query_loop e r st names w)) =
       posted w @ map (\<lambda>p. (URL, query_form p)) (take k names)
     \<and> (fst (query_loop e r st names w) = Inr () \<longrightarrow> k = length names)"
proof (induction names arbitrary: w st)
  case Nil
  then show ?case by simp
next
  case (Cons nm names)
  define w0 where "w0 = snd (wait_turn e r st w)"
  define w1 where "w1 = w0\<lparr>posted := posted w0 @ [(URL, query_form nm)]\<rparr>"
  have p1: "posted w1 = posted w @ [(URL, query_form nm)]"
    by (simp add: w1_def w0_def wait_turn_keeps)
  have stop: ?case if "query_loop e r st (nm # names) w = (Inl ex, w1)" for ex
  proof -
    have "posted (snd (query_loop e r st (nm # names) w)) =
            posted w @ map (\<lambda>p. (URL, query_form p)) (take 1 (nm # names))"
      using that p1 by simp
    moreover have "fst (query_loop e r st (nm # names) w) \<noteq> Inr ()"
      using that by simp
    moreover have "(1::nat) \<le> length (nm # names)" by simp
    ultimately show ?thesis by blast
  qed
  show ?case
  proof (cases "fst (do_request e (fst nm) (snd nm) '''' ALL' w0)")
    case (Inl ex)
    then have "query_loop e r st (nm # names) w = (Inl ex, w1)"
      by (simp add: query_loop_step w0_def w1_def Let_def del: query_loop.simps)
    then show ?thesis by (rule stop)
  next
    case (Inr page)
    show ?thesis
    proof (cases "parse_emails e page")
      case (Inl ex)
      with Inr have "query_loop e r st (nm # names) w = (Inl ex, w1)"
        by (simp add: query_loop_step w0_def w1_def Let_def del: query_loop.simps)
      then show ?thesis by (rule stop)
    next
      case info: (Inr info)
      define w3 where "w3 = (if info = []
                          then err (''Failed to find record for name: '' @ tuple_repr e nm)
                                 (write_info e info w1)
                          else write_info e info w1)"
      have q: "query_loop e r st (nm # names) w =
                 query_loop e r (fst (wait_turn e r st w)) names w3"
        using Inr info
        by (simp add: query_loop_step w0_def w1_def w3_def Let_def del: query_loop.simps)
      have p3: "posted w3 = posted w @ [(URL, query_form nm)]"
        using p1 by (simp add: w3_def err_keeps write_info_keeps)
      from Cons.IH [of "fst (wait_turn e r st w)" w3] obtain k where k: "k \<le> length names"
        "posted (snd (query_loop e r (fst (wait_turn e r st w)) names w3)) =
           posted w3 @ map (\<lambda>p. (URL, query_form p)) (take k names)"
        "fst (query_loop e r (fst (wait_turn e r st w)) names w3) = Inr () \<longrightarrow> k = length names"
        by blast
      have "Suc k \<le> length (nm # names)" using k(1) by simp
      moreover have "posted (snd (query_loop e r st (nm # names) w)) =
           posted w @ map (\<lambda>p. (URL, query_form p)) (take (Suc k) (nm # names))"
        using q k(2) p3 by simp
      moreover have "fst (query_loop e r st (nm # names) w) = Inr () \<longrightarrow> Suc k = length (nm # names)"
        using q k(3) by simp
      ultimately show ?thesis by blast
    qed
  qed
qed

lemma main_online:
  assumes "file_arg a = None" and "resolve_names a = Inr names"
  shows "main e a w =
     query_loop e (ratelimit_arg a) (clock w + passes e w - of_int (ratelimit_arg a)) names
       (if names = []
        then err ''provide name with '-b' or '-n' option. See help for details''
               (w\<lparr>clock := clock w + passes e w\<rparr>)
        else w\<lparr>clock := clock w + passes e w\<rparr>)"
  using assms by (simp add: main_def time_time_def Let_def)

lemma main_posted:
  assumes "file_arg a = None" and "resolve_names a = Inr names"
  shows "\<exists>k\<le>length names.
     posted (snd (main e a w)) = posted w @ map (\<lambda>q. (URL, query_form q)) (take k names)
     \<and> (fst (main e a w) = Inr () \<longrightarrow> k = length names)"
proof -
  define w1 where "w1 = (if names = []
        then err ''provide name with '-b' or '-n' option. See help for details''
               (w\<lparr>clock := clock w + passes e w\<rparr>)
        else w\<lparr>clock := clock w + passes e w\<rparr>)"
  have m: "main e a w =
     query_loop e (ratelimit_arg a) (clock w + passes e w - of_int (ratelimit_arg a)) names w1"
    unfolding w1_def using assms by (rule main_online)
  have "posted w1 = posted w"
    by (simp add: w1_def err_keeps)
  with query_loop_posted [of names e "ratelimit_arg a" _ w1] m show ?thesis by simp
qed

lemma type_arg_ignored: "main e (a\<lparr>type_arg := t\<rparr>) w = main e a w"
  by (simp add: main_def resolve_names_def Let_def split: option.splits sum.splits)

lemma parse_jane_any:
  "parse_emails (example_collab st (page_of [jane_row])) page = Inr [jane_contact]"
proof -
  have "find_all (page_of [jane_row]) ''tr'' ''record-data'' = [jane_row]"
    by (simp add: page_of_def find_all_def matches_def jane_row_def)
  then show ?thesis
    by (simp add: parse_emails_def example_collab_def parse_row_jane)
qed


lemma jane_do_request:
  "fst (do_request (example_collab 200 soup) fname lname '''' ALL' w) = Inr ''<html>''"
  by (simp add: do_request_def ALL'_def STUDENT_def EMPLOYEE_def requests_post_def
      example_collab_def)

lemma jane_loop:
  "fst (query_loop (example_collab 200 (page_of [jane_row])) r st names w) = Inr ()"
proof (induction names arbitrary: w st)
  case Nil
  show ?case by simp
next
  case (Cons nm names)
  show ?case
    by (simp add: query_loop_step jane_do_request parse_jane_any Cons.IH Let_def
        del: query_loop.simps)
qed

lemma resolve_student: "resolve_names student_args = Inr [(''Jane'', ''Doe'')]"
  by (simp add: resolve_names_def name_names_def student_args_def str_split_def isspace_def)

text \<open>
  C1 says that the category given with \<^verbatim>\<open>--type\<close> is the filter of every form that
  an online run sends. The driver reads the option and never passes it on: it calls
  \<open>do_request\<close> without a category, so every form carries the default. For the command
  line \<^verbatim>\<open>--name "Jane Doe" --type student\<close> the run ends without an exception and
  the one form that is sent has the filter \<^verbatim>\<open>all\<close>, not \<^verbatim>\<open>student\<close>.
\<close>

theorem type_option_is_not_sent:
  "type_arg student_args = ''student''
   \<and> fst (main (example_collab 200 (page_of [jane_row])) student_args empty_world) = Inr ()
   \<and> posted (snd (main (example_collab 200 (page_of [jane_row])) student_args empty_world)) =
       [(URL, [(''filter'', ''all''), (''firstname'', ''Jane''),
               (''lastname'', ''Doe''), (''name_n'', '''')])]"
proof -
  have f: "file_arg student_args = None" and t: "type_arg student_args = ''student''"
    by (simp_all add: student_args_def)
  have ok: "fst (main (example_collab 200 (page_of [jane_row])) student_args empty_world) = Inr ()"
    by (simp add: main_online [OF f resolve_student] jane_loop del: query_loop.simps)
  from main_posted [OF f resolve_student, of "example_collab 200 (page_of [jane_row])" empty_world]
  obtain k where
    "posted (snd (main (example_collab 200 (page_of [jane_row])) student_args empty_world)) =
       posted empty_world @ map (\<lambda>q. (URL, query_form q)) (take k [(''Jane'', ''Doe'')])"
    "fst (main (example_collab 200 (page_of [jane_row])) student_args empty_world) = Inr ()
       \<longrightarrow> k = length [(''Jane'', ''Doe'')]"
    by blast
  with ok have "posted (snd (main (example_collab 200 (page_of [jane_row])) student_args empty_world)) =
       [(URL, [(''filter'', ''all''), (''firstname'', ''Jane''),
               (''lastname'', ''Doe''), (''name_n'', '''')])]"
    by (simp add: empty_world_def query_form_def)
  with t ok show ?thesis by simp
qed

subsection \<open>The pacer\<close>

lemma paced_starts:
  "paced interval prev evs \<Longrightarrow>
   (starts evs \<noteq> [] \<longrightarrow> prev + interval \<le> hd (starts evs))
   \<and> (\<forall>i. Suc i < length (starts evs) \<longrightarrow> starts evs ! i + interval \<le> starts evs ! Suc i)"
proof (induction interval prev evs rule: paced.induct)
  case (1 interval prev)
  show ?case by simp
next
  case (2 interval prev d evs)
  then show ?case by simp
next
  case (3 interval prev s evs)
  then have ih: "starts evs \<noteq> [] \<longrightarrow> s + interval \<le> hd (starts evs)"
    "\<forall>i. Suc i < length (starts evs) \<longrightarrow> starts evs ! i + interval \<le> starts evs ! Suc i"
    and first: "prev + interval \<le> s"
    by simp_all
  have "starts (Started s # evs) ! i + interval \<le> starts (Started s # evs) ! Suc i"
    if "Suc i < length (starts (Started s # evs))" for i
  proof (cases i)
    case 0
    with that have "starts evs \<noteq> []" by auto
    with ih(1) have "s + interval \<le> hd (starts evs)" by simp
    with 0 \<open>starts evs \<noteq> []\<close> show ?thesis by (simp add: hd_conv_nth)
  next
    case (Suc j)
    with that ih(2) show ?thesis by simp
  qed
  with first show ?case by simp
qed

lemma wait_turn_events:
  assumes "\<forall>w. 0 \<le> passes e w"
  shows "\<exists>pre. events (snd (wait_turn e r st w)) =
                 events w @ pre @ [Started (fst (wait_turn e r st w))]
           \<and> (pre = [] \<or> (\<exists>d. pre = [Slept d]))
           \<and> (st + of_int r \<le> clock w \<longrightarrow> pre = [])
           \<and> st + of_int r \<le> fst (wait_turn e r st w)
           \<and> clock (snd (wait_turn e r st w)) = fst (wait_turn e r st w)"
proof -
  define t where "t = clock w + passes e w"
  define w1 where "w1 = w\<lparr>clock := t\<rparr>"
  define delay where "delay = st + of_int r - t"
  have p0: "0 \<le> passes e w" using assms by simp
  show ?thesis
  proof (cases "delay > 0")
    case True
    define w2 where "w2 = time_sleep delay w1"
    have p2: "0 \<le> passes e w2" using assms by simp
    have wt: "wait_turn e r st w =
            (clock w2 + passes e w2,
             w2\<lparr>clock := clock w2 + passes e w2,
                 events := events w2 @ [Started (clock w2 + passes e w2)]\<rparr>)"
      using True
      by (simp add: wait_turn_def time_time_def Let_def t_def w1_def delay_def w2_def)
    have c2: "clock w2 = st + of_int r"
      by (simp add: w2_def time_sleep_def w1_def delay_def)
    have e2: "events w2 = events w @ [Slept delay]"
      by (simp add: w2_def time_sleep_def w1_def)
    have "\<not> st + of_int r \<le> clock w"
      using True p0 by (simp add: delay_def t_def)
    then show ?thesis
      using wt c2 e2 p2 by simp
  next
    case False
    have p1: "0 \<le> passes e w1" using assms by simp
    have wt: "wait_turn e r st w =
            (clock w1 + passes e w1,
             w1\<lparr>clock := clock w1 + passes e w1,
                 events := events w1 @ [Started (clock w1 + passes e w1)]\<rparr>)"
      using False
      by (simp add: wait_turn_def time_time_def Let_def t_def w1_def delay_def)
    have "st + of_int r \<le> clock w1"
      using False by (simp add: delay_def w1_def)
    then show ?thesis
      using wt p1 by (simp add: w1_def)
  qed
qed

lemma starts_after_sleep:
  "pre = [] \<or> (\<exists>d. pre = [Slept d]) \<Longrightarrow> starts (pre @ evs) = starts evs"
  by auto

lemma paced_after_sleep:
  "pre = [] \<or> (\<exists>d. pre = [Slept d]) \<Longrightarrow> paced interval prev (pre @ evs) = paced interval prev evs"
  by auto

lemma query_loop_paced:
  assumes "\<forall>w. 0 \<le> passes e w"
  shows "\<exists>evs. events (snd (query_loop e r st names w)) = events w @ evs
           \<and> paced (of_int r) st evs
           \<and> (st + of_int r \<le> clock w \<longrightarrow> evs = [] \<or> (\<exists>s rest. evs = Started s # rest))
           \<and> length (posted (snd (query_loop e r st names w))) =
               length (posted w) + length (starts evs)"
proof (induction names arbitrary: w st)
  case Nil
  show ?case by simp
next
  case (Cons nm names)
  define s where "s = fst (wait_turn e r st w)"
  define w0 where "w0 = snd (wait_turn e r st w)"
  define w1 where "w1 = w0\<lparr>posted := posted w0 @ [(URL, query_form nm)]\<rparr>"
  from wait_turn_events [OF assms, of r st w] obtain pre where
    pre: "events w0 = events w @ pre @ [Started s]"
      "pre = [] \<or> (\<exists>d. pre = [Slept d])"
      "st + of_int r \<le> clock w \<longrightarrow> pre = []"
      "st + of_int r \<le> s"
    unfolding s_def w0_def by blast
  have e1: "events w1 = events w @ pre @ [Started s]"
    and p1: "posted w1 = posted w @ [(URL, query_form nm)]"
    using pre(1) by (simp_all add: w1_def w0_def wait_turn_keeps)
  have stop: ?case if "query_loop e r st (nm # names) w = (Inl ex, w1)" for ex
  proof -
    have "events (snd (query_loop e r st (nm # names) w)) = events w @ (pre @ [Started s])"
      using that e1 by simp
    moreover have "paced (of_int r) st (pre @ [Started s])"
      using pre(2,4) by (simp add: paced_after_sleep)
    moreover have "st + of_int r \<le> clock w \<longrightarrow>
        pre @ [Started s] = [] \<or> (\<exists>s' rest. pre @ [Started s] = Started s' # rest)"
      using pre(3) by simp
    moreover have "length (posted (snd (query_loop e r st (nm # names) w))) =
               length (posted w) + length (starts (pre @ [Started s]))"
      using that p1 pre(2) by (simp add: starts_after_sleep)
    ultimately show ?thesis by blast
  qed
  show ?case
  proof (cases "fst (do_request e (fst nm) (snd nm) '''' ALL' w0)")
    case (Inl ex)
    then have "query_loop e r st (nm # names) w = (Inl ex, w1)"
      by (simp add: query_loop_step w0_def w1_def Let_def del: query_loop.simps)
    then show ?thesis by (rule stop)
  next
    case (Inr page)
    show ?thesis
    proof (cases "parse_emails e page")
      case (Inl ex)
      with Inr have "query_loop e r st (nm # names) w = (Inl ex, w1)"
        by (simp add: query_loop_step w0_def w1_def Let_def del: query_loop.simps)
      then show ?thesis by (rule stop)
    next
      case info: (Inr info)
      define w3 where "w3 = (if info = []
                          then err (''Failed to find record for name: '' @ tuple_repr e nm)
                                 (write_info e info w1)
                          else write_info e info w1)"
      have q: "query_loop e r st (nm # names) w = query_loop e r s names w3"
        using Inr info
        by (simp add: query_loop_step w0_def w1_def w3_def s_def Let_def del: query_loop.simps)
      have e3: "events w3 = events w @ pre @ [Started s]"
        and p3: "posted w3 = posted w @ [(URL, query_form nm)]"
        using e1 p1 by (simp_all add: w3_def err_keeps write_info_keeps)
      from Cons.IH [of s w3] obtain evs where evs:
        "events (snd (query_loop e r s names w3)) = events w3 @ evs"
        "paced (of_int r) s evs"
        "length (posted (snd (query_loop e r s names w3))) = length (posted w3) + length (starts evs)"
        by blast
      have "events (snd (query_loop e r st (nm # names) w)) = events w @ (pre @ Started s # evs)"
        using q evs(1) e3 by simp
      moreover have "paced (of_int r) st (pre @ Started s # evs)"
        using pre(2,4) evs(2) by (simp add: paced_after_sleep)
      moreover have "st + of_int r \<le> clock w \<longrightarrow>
          pre @ Started s # evs = [] \<or> (\<exists>s' rest. pre @ Started s # evs = Started s' # rest)"
        using pre(3) by simp
      moreover have "length (posted (snd (query_loop e r st (nm # names) w))) =
               length (posted w) + length (starts (pre @ Started s # evs))"
        using q evs(3) p3 pre(2) by (simp add: starts_after_sleep)
      ultimately show ?thesis by blast
    qed
  qed
qed

lemma main_paced:
  assumes "\<forall>w. 0 \<le> passes e w"
  shows "\<exists>evs. events (snd (main e a w)) = events w @ evs
           \<and> (evs = [] \<or> (\<exists>s rest. evs = Started s # rest))
           \<and> paced (of_int (ratelimit_arg a)) (clock w + passes e w - of_int (ratelimit_arg a)) evs
           \<and> length (posted (snd (main e a w))) = length (posted w) + length (starts evs)"
proof -
  have none: ?thesis if "events (snd (main e a w)) = events w" "posted (snd (main e a w)) = posted w"
    using that by simp
  show ?thesis
  proof (cases "file_arg a")
    case (Some page)
    then have "events (snd (main e a w)) = events w" "posted (snd (main e a w)) = posted w"
      by (simp_all add: main_def Let_def err_keeps write_info_keeps split: sum.splits)
    then show ?thesis by (rule none)
  next
    case None
    show ?thesis
    proof (cases "resolve_names a")
      case (Inl ex)
      with None have "events (snd (main e a w)) = events w" "posted (snd (main e a w)) = posted w"
        by (simp_all add: main_def)
      then show ?thesis by (rule none)
    next
      case (Inr names)
      define w1 where "w1 = (if names = []
        then err ''provide name with '-b' or '-n' option. See help for details''
               (w\<lparr>clock := clock w + passes e w\<rparr>)
        else w\<lparr>clock := clock w + passes e w\<rparr>)"
      define st where "st = clock w + passes e w - of_int (ratelimit_arg a)"
      have m: "main e a w = query_loop e (ratelimit_arg a) st names w1"
        unfolding w1_def st_def using None Inr by (rule main_online)
      have w1: "events w1 = events w" "posted w1 = posted w" "st + of_int (ratelimit_arg a) \<le> clock w1"
        by (simp_all add: w1_def st_def err_keeps)
      from query_loop_paced [OF assms, of "ratelimit_arg a" st names w1] w1 obtain evs where
        "events (snd (query_loop e (ratelimit_arg a) st names w1)) = events w @ evs"
        "paced (of_int (ratelimit_arg a)) st evs"
        "evs = [] \<or> (\<exists>s rest. evs = Started s # rest)"
        "length (posted (snd (query_loop e (ratelimit_arg a) st names w1))) =
           length (posted w) + length (starts evs)"
        by auto
      then show ?thesis
        unfolding st_def [symmetric] m by blast
    qed
  qed
qed

lemma example_passes: "passes (example_collab status soup) w = 1"
  by (simp add: example_collab_def)

lemma resolve_batch_args:
  "resolve_names batch_args = Inr [(''Jane'', ''Doe''), (''Ann'', ''Roe''), ('''', ''Poe'')]"
  by (simp add: resolve_names_def name_names_def batch_args_def strip_def str_split_def
      isspace_def)

lemma batch_args_online: "file_arg batch_args = None" "ratelimit_arg batch_args = 5"
  by (simp_all add: batch_args_def)

lemma query_loop_done: "query_loop e r st [] w = (Inr (), w)"
  by simp

lemma batch_run_events:
  "events (snd (main (example_collab 200 (page_of [jane_row])) batch_args empty_world)) =
     [Started 3, Slept 4, Started 9, Slept 4, Started 15]"
  by (simp add: main_online [OF batch_args_online(1) resolve_batch_args] batch_args_online(2)
      query_loop_step query_loop_done jane_do_request parse_jane_any wait_turn_def
      time_time_def time_sleep_def example_passes empty_world_def Let_def write_info_keeps
      del: query_loop.simps)

text \<open>
  C5: on a clock that never runs backwards, with exact arithmetic on the times, the log
  of a run shows no sleep before the first start, every start is at least
  \<^verbatim>\<open>--ratelimit\<close> seconds after the start before it, and there is one start for
  every form that is posted.
\<close>

theorem queries_are_paced:
  "(\<forall>w. 0 \<le> passes e w) \<longrightarrow>
     (\<exists>evs. events (snd (main e a w)) = events w @ evs
        \<and> (evs = [] \<or> (\<exists>s rest. evs = Started s # rest))
        \<and> (\<forall>i. Suc i < length (starts evs) \<longrightarrow>
              starts evs ! i + of_int (ratelimit_arg a) \<le> starts evs ! Suc i)
        \<and> length (posted (snd (main e a w))) = length (posted w) + length (starts evs))"
proof
  assume "\<forall>w. 0 \<le> passes e w"
  from main_paced [OF this, of a w] obtain evs where evs:
    "events (snd (main e a w)) = events w @ evs"
    "evs = [] \<or> (\<exists>s rest. evs = Started s # rest)"
    "paced (of_int (ratelimit_arg a)) (clock w + passes e w - of_int (ratelimit_arg a)) evs"
    "length (posted (snd (main e a w))) = length (posted w) + length (starts evs)"
    by blast
  from paced_starts [OF evs(3)] have
    "\<forall>i. Suc i < length (starts evs) \<longrightarrow>
              starts evs ! i + of_int (ratelimit_arg a) \<le> starts evs ! Suc i"
    by simp
  with evs(1,2,4) show "\<exists>evs. events (snd (main e a w)) = events w @ evs
        \<and> (evs = [] \<or> (\<exists>s rest. evs = Started s # rest))
        \<and> (\<forall>i. Suc i < length (starts evs) \<longrightarrow>
              starts evs ! i + of_int (ratelimit_arg a) \<le> starts evs ! Suc i)
        \<and> length (posted (snd (main e a w))) = length (posted w) + length (starts evs)"
    by blast
qed

theorem queries_are_paced_witness:
  "(\<forall>w. 0 \<le> passes (example_collab 200 (page_of [jane_row])) w)
   \<and> events (snd (main (example_collab 200 (page_of [jane_row])) batch_args empty_world)) =
       events empty_world @ [Started 3, Slept 4, Started 9, Slept 4, Started 15]
   \<and> starts [Started 3, Slept 4, Started 9, Slept 4, Started 15] = [3, 9, 15]
   \<and> ratelimit_arg batch_args = 5
   \<and> starts [Started 3, Slept 4, Started 9, Slept 4, Started 15] ! 0
       + of_int (ratelimit_arg batch_args)
       \<le> starts [Started 3, Slept 4, Started 9, Slept 4, Started 15] ! Suc 0
   \<and> starts [Started 3, Slept 4, Started 9, Slept 4, Started 15] ! 1
       + of_int (ratelimit_arg batch_args)
       \<le> starts [Started 3, Slept 4, Started 9, Slept 4, Started 15] ! Suc 1
   \<and> length (posted (snd (main (example_collab 200 (page_of [jane_row])) batch_args empty_world)))
       = length (posted empty_world)
         + length (starts [Started 3, Slept 4, Started 9, Slept 4, Started 15])"
proof -
  have h: "\<forall>w. 0 \<le> passes (example_collab 200 (page_of [jane_row])) w"
    by (simp add: example_passes)
  have ev: "events (snd (main (example_collab 200 (page_of [jane_row])) batch_args empty_world)) =
       events empty_world @ [Started 3, Slept 4, Started 9, Slept 4, Started 15]"
  proof -
    have "events empty_world = []" by (simp add: empty_world_def)
    then show ?thesis by (simp only: batch_run_events append_Nil)
  qed
  from queries_are_paced [of "example_collab 200 (page_of [jane_row])" batch_args empty_world] h
  obtain evs where evs:
    "events (snd (main (example_collab 200 (page_of [jane_row])) batch_args empty_world)) =
       events empty_world @ evs"
    "\<forall>i. Suc i < length (starts evs) \<longrightarrow>
              starts evs ! i + of_int (ratelimit_arg batch_args) \<le> starts evs ! Suc i"
    "length (posted (snd (main (example_collab 200 (page_of [jane_row])) batch_args empty_world)))
       = length (posted empty_world) + length (starts evs)"
    by blast
  from evs(1) ev have e: "evs = [Started 3, Slept 4, Started 9, Slept 4, Started 15]"
    by simp
  have s: "starts [Started 3, Slept 4, Started 9, Slept 4, Started 15] = [3, 9, 15]"
    by simp
  have "Suc 0 < length (starts evs)" and "Suc 1 < length (starts evs)"
    by (simp_all add: e)
  with evs(2) have
    "starts evs ! 0 + of_int (ratelimit_arg batch_args) \<le> starts evs ! Suc 0"
    "starts evs ! 1 + of_int (ratelimit_arg batch_args) \<le> starts evs ! Suc 1"
    by blast+
  with h ev s evs(3) batch_args_online(2) show ?thesis
    unfolding e by blast
qed

subsection \<open>Splitting names\<close>

lemma split_go_token:
  "\<forall>c\<in>set t. \<not> isspace c \<Longrightarrow> split_go cur (t @ rest) = split_go (cur @ t) rest"
  by (induction t arbitrary: cur) simp_all

lemma split_go_spaces: "\<forall>c\<in>set ws. isspace c \<Longrightarrow> split_go [] (ws @ rest) = split_go [] rest"
  by (induction ws) simp_all

lemma split_go_at_space:
  "isspace w \<Longrightarrow> split_go cur (xs @ w # ys) = split_go cur xs @ split_go [] ys"
  by (induction xs arbitrary: cur) simp_all

lemma split_go_blank: "\<forall>c\<in>set ws. isspace c \<Longrightarrow> split_go [] ws = []"
  using split_go_spaces [of ws "[]"] by simp

lemma split_go_trailing:
  "\<forall>c\<in>set ws. isspace c \<Longrightarrow> split_go cur (xs @ ws) = split_go cur xs"
proof (cases ws)
  case Nil
  then show ?thesis by simp
next
  case (Cons w ws')
  assume a: "\<forall>c\<in>set ws. isspace c"
  with Cons have "isspace w" and "\<forall>c\<in>set ws'. isspace c" by simp_all
  then show ?thesis
    using Cons by (simp add: split_go_at_space split_go_blank)
qed

lemma str_split_single:
  assumes "\<forall>c\<in>set lead. isspace c" and "\<forall>c\<in>set trail. isspace c"
    and "t \<noteq> []" and "\<forall>c\<in>set t. \<not> isspace c"
  shows "str_split (lead @ t @ trail) = [t]"
proof -
  have "str_split (lead @ t @ trail) = split_go [] (t @ trail)"
    using assms(1) by (simp add: str_split_def split_go_spaces)
  also have "\<dots> = split_go [] t"
    using assms(2) by (rule split_go_trailing)
  also have "\<dots> = split_go t []"
    using split_go_token [OF assms(4), of "[]" "[]"] by simp
  finally show ?thesis using assms(3) by simp
qed

lemma str_split_multi:
  assumes "\<forall>c\<in>set lead. isspace c" and "\<forall>c\<in>set trail. isspace c"
    and "t1 \<noteq> []" and "\<forall>c\<in>set t1. \<not> isspace c"
    and "t2 \<noteq> []" and "\<forall>c\<in>set t2. \<not> isspace c"
    and "gap \<noteq> []" and "isspace (hd gap)" and "isspace (last gap)"
  shows "\<exists>mid. str_split (lead @ t1 @ gap @ t2 @ trail) = t1 # mid @ [t2]"
proof -
  have last: "split_go [] (t2 @ trail) = [t2]"
    using str_split_single [OF _ assms(2,5,6), of "[]"] by (simp add: str_split_def)
  have first: "split_go [] t1 = [t1]"
    using str_split_single [OF _ _ assms(3,4), of "[]" "[]"] by (simp add: str_split_def)
  obtain w g where gap: "gap = w # g" using assms(7) by (cases gap) auto
  with assms(8) have w: "isspace w" by simp
  have "str_split (lead @ t1 @ gap @ t2 @ trail) = split_go [] (t1 @ w # (g @ t2 @ trail))"
    using assms(1) gap by (simp add: str_split_def split_go_spaces)
  also have "\<dots> = [t1] @ split_go [] (g @ t2 @ trail)"
    using w first by (simp add: split_go_at_space)
  finally have s: "str_split (lead @ t1 @ gap @ t2 @ trail) = t1 # split_go [] (g @ t2 @ trail)"
    by simp
  show ?thesis
  proof (cases "g = []")
    case True
    with s last have "str_split (lead @ t1 @ gap @ t2 @ trail) = t1 # [] @ [t2]" by simp
    then show ?thesis by blast
  next
    case False
    then obtain g' w' where g: "g = g' @ [w']" by (metis rev_exhaust)
    with gap assms(9) have "isspace w'" by simp
    then have "split_go [] (g @ t2 @ trail) = split_go [] g' @ [t2]"
      using g last by (simp add: split_go_at_space)
    with s show ?thesis by simp
  qed
qed

lemma str_split_strip: "str_split (strip s) = str_split s"
proof -
  obtain l r where d: "s = l @ strip s @ r" "\<forall>x\<in>set l. isspace x" "\<forall>x\<in>set r. isspace x"
    using strip_decomp by blast
  have "str_split s = str_split (l @ strip s @ r)" using d(1) by simp
  also have "\<dots> = split_go [] (strip s @ r)"
    using d(2) by (simp add: str_split_def split_go_spaces)
  also have "\<dots> = split_go [] (strip s)"
    using d(3) by (rule split_go_trailing)
  finally show ?thesis by (simp add: str_split_def)
qed

lemma str_split_Nil: "str_split [] = []"
  by (simp add: str_split_def)

lemma name_names_single:
  "str_split s = [t] \<Longrightarrow> name_names (Some s) = Inr [('''', t)]"
  by (auto simp: name_names_def str_split_Nil)

lemma name_names_multi:
  "str_split s = t1 # mid @ [t2] \<Longrightarrow> name_names (Some s) = Inr [(t1, t2)]"
  by (auto simp: name_names_def str_split_Nil Let_def)

lemma batch_names_app: "batch_names (xs @ ys) acc = batch_names ys (batch_names xs acc)"
  by (induction xs arbitrary: acc) (simp_all add: Let_def)

lemma batch_names_single:
  "str_split line = [t] \<Longrightarrow> batch_names [line] acc = acc @ [('''', t)]"
  by (simp add: str_split_strip)

lemma batch_names_multi:
  "str_split line = t1 # mid @ [t2] \<Longrightarrow> batch_names [line] acc = acc @ [(t1, t2)]"
  by (simp add: str_split_strip)

lemma batch_names_blank:
  "\<forall>c\<in>set line. isspace c \<Longrightarrow> batch_names [line] acc = acc"
proof -
  assume "\<forall>c\<in>set line. isspace c"
  then have "str_split line = []"
    by (simp add: str_split_def split_go_blank)
  then show ?thesis
    by (simp add: str_split_strip)
qed

lemma batch_names_acc: "batch_names lines acc = acc @ batch_names lines []"
proof (induction lines arbitrary: acc)
  case Nil
  show ?case by simp
next
  case (Cons l ls)
  show ?case
    using Cons.IH [of "acc @ [('''', str_split (strip l) ! 0)]"]
      Cons.IH [of "[('''', str_split (strip l) ! 0)]"]
      Cons.IH [of "acc @ [(str_split (strip l) ! 0, last (str_split (strip l)))]"]
      Cons.IH [of "[(str_split (strip l) ! 0, last (str_split (strip l)))]"]
      Cons.IH [of acc]
    by (simp add: Let_def)
qed


lemma batch_names_line:
  "batch_names (before @ line # after) acc =
     batch_names before acc @ batch_names [line] [] @ batch_names after []"
proof -
  have "batch_names (before @ line # after) acc =
          batch_names after (batch_names [line] (batch_names before acc))"
    using batch_names_app [of before "[line] @ after" acc] batch_names_app [of "[line]" after]
    by simp
  also have "\<dots> = batch_names [line] (batch_names before acc) @ batch_names after []"
    by (rule batch_names_acc)
  also have "batch_names [line] (batch_names before acc) =
               batch_names before acc @ batch_names [line] []"
    by (rule batch_names_acc)
  finally show ?thesis by simp
qed

text \<open>
  C6: a name that is one token \<open>t\<close> between whitespace gives the pair \<open>('', t)\<close>; a name
  of several tokens, a first token \<open>t1\<close> and a last token \<open>t2\<close> with a gap between them
  that starts and ends with whitespace, gives \<open>(t1, t2)\<close>. A line of the batch file
  gives the same pair, placed between the pairs of the lines before and after it, and
  a line of whitespace only gives none. The three names of the spec give the pairs it
  lists.
\<close>

theorem name_tokenization:
  "((\<forall>c\<in>set lead. isspace c) \<and> (\<forall>c\<in>set trail. isspace c)
      \<and> t \<noteq> [] \<and> (\<forall>c\<in>set t. \<not> isspace c) \<longrightarrow>
        name_names (Some (lead @ t @ trail)) = Inr [('''', t)]
      \<and> batch_names (before @ (lead @ t @ trail) # after) acc =
          batch_names before acc @ [('''', t)] @ batch_names after [])
   \<and> ((\<forall>c\<in>set lead. isspace c) \<and> (\<forall>c\<in>set trail. isspace c)
      \<and> t1 \<noteq> [] \<and> (\<forall>c\<in>set t1. \<not> isspace c)
      \<and> t2 \<noteq> [] \<and> (\<forall>c\<in>set t2. \<not> isspace c)
      \<and> gap \<noteq> [] \<and> isspace (hd gap) \<and> isspace (last gap) \<longrightarrow>
        name_names (Some (lead @ t1 @ gap @ t2 @ trail)) = Inr [(t1, t2)]
      \<and> batch_names (before @ (lead @ t1 @ gap @ t2 @ trail) # after) acc =
          batch_names before acc @ [(t1, t2)] @ batch_names after [])
   \<and> ((\<forall>c\<in>set blank. isspace c) \<longrightarrow>
        batch_names (before @ blank # after) acc =
          batch_names before acc @ batch_names after [])
   \<and> name_names (Some ''Jane Doe'') = Inr [(''Jane'', ''Doe'')]
   \<and> name_names (Some ''Doe'') = Inr [('''', ''Doe'')]
   \<and> name_names (Some ''Jane Middle Doe'') = Inr [(''Jane'', ''Doe'')]"
proof (intro conjI impI)
  assume a: "(\<forall>c\<in>set lead. isspace c) \<and> (\<forall>c\<in>set trail. isspace c)
      \<and> t \<noteq> [] \<and> (\<forall>c\<in>set t. \<not> isspace c)"
  then have s: "str_split (lead @ t @ trail) = [t]"
    by (intro str_split_single) simp_all
  then show "name_names (Some (lead @ t @ trail)) = Inr [('''', t)]"
    by (rule name_names_single)
  show "batch_names (before @ (lead @ t @ trail) # after) acc =
          batch_names before acc @ [('''', t)] @ batch_names after []"
    using batch_names_single [OF s, of "[]"] by (simp add: batch_names_line)
next
  assume a: "(\<forall>c\<in>set lead. isspace c) \<and> (\<forall>c\<in>set trail. isspace c)
      \<and> t1 \<noteq> [] \<and> (\<forall>c\<in>set t1. \<not> isspace c)
      \<and> t2 \<noteq> [] \<and> (\<forall>c\<in>set t2. \<not> isspace c)
      \<and> gap \<noteq> [] \<and> isspace (hd gap) \<and> isspace (last gap)"
  then have "\<exists>mid. str_split (lead @ t1 @ gap @ t2 @ trail) = t1 # mid @ [t2]"
    by (intro str_split_multi) simp_all
  then obtain mid where s: "str_split (lead @ t1 @ gap @ t2 @ trail) = t1 # mid @ [t2]" ..
  then show "name_names (Some (lead @ t1 @ gap @ t2 @ trail)) = Inr [(t1, t2)]"
    by (rule name_names_multi)
  show "batch_names (before @ (lead @ t1 @ gap @ t2 @ trail) # after) acc =
          batch_names before acc @ [(t1, t2)] @ batch_names after []"
    using batch_names_multi [OF s, of "[]"] by (simp add: batch_names_line)
next
  assume "\<forall>c\<in>set blank. isspace c"
  then show "batch_names (before @ blank # after) acc =
          batch_names before acc @ batch_names after []"
    using batch_names_blank [of blank "[]"] by (simp add: batch_names_line)
next
  show "name_names (Some ''Jane Doe'') = Inr [(''Jane'', ''Doe'')]"
    by (simp add: name_names_def str_split_def isspace_def)
  show "name_names (Some ''Doe'') = Inr [('''', ''Doe'')]"
    by (simp add: name_names_def str_split_def isspace_def)
  show "name_names (Some ''Jane Middle Doe'') = Inr [(''Jane'', ''Doe'')]"
    by (simp add: name_names_def str_split_def isspace_def)
qed

lemma batch_ann: "batch_names [''Ann Roe''] [] = [(''Ann'', ''Roe'')]"
  by (simp add: strip_def str_split_def isspace_def)

theorem name_tokenization_witness:
  "list_all isspace [CHR 0x20] \<and> list_all isspace [NL]
   \<and> ''Doe'' \<noteq> [] \<and> list_all (\<lambda>c. \<not> isspace c) ''Doe''
   \<and> name_names (Some ([CHR 0x20] @ ''Doe'' @ [NL])) = Inr [('''', ''Doe'')]
   \<and> batch_names ([''Ann Roe''] @ ([CHR 0x20] @ ''Doe'' @ [NL]) # []) []
       = [(''Ann'', ''Roe''), ('''', ''Doe'')]
   \<and> ''Jane'' \<noteq> [] \<and> list_all (\<lambda>c. \<not> isspace c) ''Jane''
   \<and> '' Middle '' \<noteq> [] \<and> isspace (hd '' Middle '') \<and> isspace (last '' Middle '')
   \<and> name_names (Some ([CHR 0x20] @ ''Jane'' @ '' Middle '' @ ''Doe'' @ [NL]))
       = Inr [(''Jane'', ''Doe'')]
   \<and> batch_names ([''Ann Roe''] @ ([CHR 0x20] @ ''Jane'' @ '' Middle '' @ ''Doe'' @ [NL]) # []) []
       = [(''Ann'', ''Roe''), (''Jane'', ''Doe'')]
   \<and> list_all isspace [CHR 0x20, NL]
   \<and> batch_names ([''Ann Roe''] @ [CHR 0x20, NL] # []) [] = [(''Ann'', ''Roe'')]"
proof -
  have h: "(\<forall>c\<in>set [CHR 0x20]. isspace c)" "(\<forall>c\<in>set [NL]. isspace c)"
    "''Doe'' \<noteq> []" "(\<forall>c\<in>set ''Doe''. \<not> isspace c)"
    "''Jane'' \<noteq> []" "(\<forall>c\<in>set ''Jane''. \<not> isspace c)"
    "'' Middle '' \<noteq> []" "isspace (hd '' Middle '')" "isspace (last '' Middle '')"
    "(\<forall>c\<in>set [CHR 0x20, NL]. isspace c)"
    by (simp_all add: isspace_def)
  note n = name_tokenization
    [of "[CHR 0x20]" "[NL]" "''Doe''" "[''Ann Roe'']" "[]" "[]"
        "''Jane''" "''Doe''" "'' Middle ''" "[CHR 0x20, NL]"]
  have e: "batch_names [''Ann Roe''] [] @ [('''', ''Doe'')] @ batch_names [] []
             = [(''Ann'', ''Roe''), ('''', ''Doe'')]"
    "batch_names [''Ann Roe''] [] @ [(''Jane'', ''Doe'')] @ batch_names [] []
             = [(''Ann'', ''Roe''), (''Jane'', ''Doe'')]"
    "batch_names [''Ann Roe''] [] @ batch_names [] [] = [(''Ann'', ''Roe'')]"
    unfolding batch_ann by simp_all
  have 1: "name_names (Some ([CHR 0x20] @ ''Doe'' @ [NL])) = Inr [('''', ''Doe'')]"
    using n h by blast
  have "batch_names ([''Ann Roe''] @ ([CHR 0x20] @ ''Doe'' @ [NL]) # []) []
       = batch_names [''Ann Roe''] [] @ [('''', ''Doe'')] @ batch_names [] []"
    using n h by blast
  from this e(1) have 2: "batch_names ([''Ann Roe''] @ ([CHR 0x20] @ ''Doe'' @ [NL]) # []) []
       = [(''Ann'', ''Roe''), ('''', ''Doe'')]"
    by (rule trans)
  have 3: "name_names (Some ([CHR 0x20] @ ''Jane'' @ '' Middle '' @ ''Doe'' @ [NL]))
       = Inr [(''Jane'', ''Doe'')]"
    using n h by blast
  have "batch_names ([''Ann Roe''] @ ([CHR 0x20] @ ''Jane'' @ '' Middle '' @ ''Doe'' @ [NL]) # []) []
       = batch_names [''Ann Roe''] [] @ [(''Jane'', ''Doe'')] @ batch_names [] []"
    using n h by blast
  from this e(2) have 4: "batch_names ([''Ann Roe''] @ ([CHR 0x20] @ ''Jane'' @ '' Middle '' @ ''Doe'' @ [NL]) # []) []
       = [(''Ann'', ''Roe''), (''Jane'', ''Doe'')]"
    by (rule trans)
  have "batch_names ([''Ann Roe''] @ [CHR 0x20, NL] # []) []
       = batch_names [''Ann Roe''] [] @ batch_names [] []"
    using n h by blast
  from this e(3) have 5: "batch_names ([''Ann Roe''] @ [CHR 0x20, NL] # []) [] = [(''Ann'', ''Roe'')]"
    by (rule trans)
  from 1 2 3 4 5 show ?thesis by (simp add: isspace_def)
qed


subsection \<open>The order of the queries\<close>

lemma batch_names_concat: "batch_names lines [] = concat (map (\<lambda>l. batch_names [l] []) lines)"
proof (induction lines)
  case Nil
  show ?case by simp
next
  case (Cons l ls)
  have "batch_names (l # ls) [] = batch_names ([] @ l # ls) []" by simp
  also have "\<dots> = batch_names [] [] @ batch_names [l] [] @ batch_names ls []"
    by (rule batch_names_line)
  finally show ?case using Cons.IH by simp
qed

text \<open>
  C9: with a name that gives a pair and a batch file, the resolved list is that pair
  followed by the pairs of the batch lines, line by line in the order of the file; a
  line of whitespace only adds nothing. In the online mode the forms are posted in the
  order of the resolved list: what has been posted after the run is the forms of the
  first \<open>k\<close> pairs, and of all of them when the run ends without an exception.
\<close>

theorem name_first_then_batch:
  "(name_names (name_arg a) = Inr [p] \<longrightarrow> batch_arg a = Some lines \<longrightarrow>
       resolve_names a = Inr (p # batch_names lines []))
   \<and> batch_names lines [] = concat (map (\<lambda>l. batch_names [l] []) lines)
   \<and> ((\<forall>c\<in>set blank. isspace c) \<longrightarrow>
        batch_names (xs @ blank # ys) [] = batch_names (xs @ ys) [])
   \<and> (file_arg a = None \<longrightarrow> resolve_names a = Inr names \<longrightarrow>
        (\<exists>k\<le>length names.
           posted (snd (main e a w)) =
             posted w @ map (\<lambda>q. (URL, query_form q)) (take k names)
           \<and> (fst (main e a w) = Inr () \<longrightarrow> k = length names)))"
proof (intro conjI impI)
  assume "name_names (name_arg a) = Inr [p]" and "batch_arg a = Some lines"
  then show "resolve_names a = Inr (p # batch_names lines [])"
    using batch_names_acc [of lines "[p]"] by (simp add: resolve_names_def)
next
  show "batch_names lines [] = concat (map (\<lambda>l. batch_names [l] []) lines)"
    by (rule batch_names_concat)
next
  assume "\<forall>c\<in>set blank. isspace c"
  then have "batch_names [blank] [] = []"
    by (rule batch_names_blank)
  then show "batch_names (xs @ blank # ys) [] = batch_names (xs @ ys) []"
    using batch_names_concat [of "xs @ blank # ys"] batch_names_concat [of "xs @ ys"] by simp
next
  assume "file_arg a = None" and "resolve_names a = Inr names"
  then show "\<exists>k\<le>length names.
           posted (snd (main e a w)) =
             posted w @ map (\<lambda>q. (URL, query_form q)) (take k names)
           \<and> (fst (main e a w) = Inr () \<longrightarrow> k = length names)"
    by (rule main_posted)
qed

lemma batch_args_facts:
  "name_names (name_arg batch_args) = Inr [(''Jane'', ''Doe'')]"
  "batch_arg batch_args = Some [''Ann Roe'', [CHR 0x20, NL], ''Poe'']"
  "file_arg batch_args = None"
  "batch_names [''Ann Roe'', [CHR 0x20, NL], ''Poe''] [] = [(''Ann'', ''Roe''), ('''', ''Poe'')]"
  "batch_names ([''Ann Roe''] @ [CHR 0x20, NL] # [''Poe'']) [] = [(''Ann'', ''Roe''), ('''', ''Poe'')]"
  "\<forall>c\<in>set [CHR 0x20, NL]. isspace c"
  by (simp_all add: batch_args_def name_names_def strip_def str_split_def isspace_def)

theorem name_first_then_batch_witness:
  "name_names (name_arg batch_args) = Inr [(''Jane'', ''Doe'')]
   \<and> batch_arg batch_args = Some [''Ann Roe'', [CHR 0x20, NL], ''Poe'']
   \<and> file_arg batch_args = None
   \<and> resolve_names batch_args = Inr [(''Jane'', ''Doe''), (''Ann'', ''Roe''), ('''', ''Poe'')]
   \<and> list_all isspace [CHR 0x20, NL]
   \<and> batch_names ([''Ann Roe''] @ [CHR 0x20, NL] # [''Poe'']) [] =
       batch_names ([''Ann Roe''] @ [''Poe'']) []
   \<and> fst (main (example_collab 200 (page_of [jane_row])) batch_args empty_world) = Inr ()
   \<and> posted (snd (main (example_collab 200 (page_of [jane_row])) batch_args empty_world)) =
       [(URL, query_form (''Jane'', ''Doe'')), (URL, query_form (''Ann'', ''Roe'')),
        (URL, query_form ('''', ''Poe''))]"
proof -
  note t = name_first_then_batch
    [of batch_args "(''Jane'', ''Doe'')" "[''Ann Roe'', [CHR 0x20, NL], ''Poe'']"
        "[CHR 0x20, NL]" "[''Ann Roe'']" "[''Poe'']"
        "[(''Jane'', ''Doe''), (''Ann'', ''Roe''), ('''', ''Poe'')]"
        "example_collab 200 (page_of [jane_row])" empty_world]
  have r: "resolve_names batch_args = Inr [(''Jane'', ''Doe''), (''Ann'', ''Roe''), ('''', ''Poe'')]"
    using t batch_args_facts(1,2,4) by simp
  have b: "batch_names ([''Ann Roe''] @ [CHR 0x20, NL] # [''Poe'']) [] =
       batch_names ([''Ann Roe''] @ [''Poe'']) []"
    using t batch_args_facts(6) by blast
  have m: "fst (main (example_collab 200 (page_of [jane_row])) batch_args empty_world) = Inr ()"
    by (simp add: main_online [OF batch_args_facts(3) r] jane_loop del: query_loop.simps)
  obtain k where k: "k \<le> length [(''Jane'', ''Doe''), (''Ann'', ''Roe''), ('''', ''Poe'')]"
    "posted (snd (main (example_collab 200 (page_of [jane_row])) batch_args empty_world)) =
       posted empty_world @ map (\<lambda>q. (URL, query_form q))
         (take k [(''Jane'', ''Doe''), (''Ann'', ''Roe''), ('''', ''Poe'')])"
    "fst (main (example_collab 200 (page_of [jane_row])) batch_args empty_world) = Inr ()
       \<longrightarrow> k = length [(''Jane'', ''Doe''), (''Ann'', ''Roe''), ('''', ''Poe'')]"
    using t r batch_args_facts(3) by blast
  from k(3) m have "k = 3" by simp
  with k(2) have p: "posted (snd (main (example_collab 200 (page_of [jane_row])) batch_args empty_world)) =
       [(URL, query_form (''Jane'', ''Doe'')), (URL, query_form (''Ann'', ''Roe'')),
        (URL, query_form ('''', ''Poe''))]"
    by (simp add: empty_world_def)
  have "list_all isspace [CHR 0x20, NL]" by (simp add: isspace_def)
  with batch_args_facts(1,2,3) r b m p show ?thesis by blast
qed


subsection \<open>The output format\<close>






end
